theory Spec2Isabelle
  imports Complex_Main
begin

section \<open>JavaScript numbers\<close>

text \<open>
  A JavaScript number is modelled as one of the three non-finite values or a real.
  Comparisons, the rounding of \<open>toFixed\<close> and the sums and products below are taken
  over the reals. Where the rounding of binary64 arithmetic decides what the source
  does, it is written out: in the two loops of \<open>validateAndNormalize\<close>, whose
  subtraction is rounded (\<open>round64\<close>), and in the statements on distances, which are
  given with a tolerance of one unit of the sixth decimal and for points at most
  20000 km apart, where no \<open>NaN\<close> can arise from the haversine term. Signed zero is
  not distinguished: \<open>-0\<close> is the real \<open>0\<close>, as it is for the comparisons \<open><\<close>, \<open>>=\<close>
  and \<open>===\<close> of the source.
\<close>

datatype jsnum = NaN | PosInf | NegInf | Fin (finval: real)

fun isNaN :: "jsnum \<Rightarrow> bool" where
  "isNaN NaN = True"
| "isNaN _ = False"

fun isFinite :: "jsnum \<Rightarrow> bool" where
  "isFinite (Fin _) = True"
| "isFinite _ = False"

text \<open>The relational operators \<open><\<close> and \<open><=\<close>; every comparison with \<open>NaN\<close> is false.\<close>

fun js_lt :: "jsnum \<Rightarrow> jsnum \<Rightarrow> bool" where
  "js_lt NaN _ = False"
| "js_lt _ NaN = False"
| "js_lt (Fin x) (Fin y) = (x < y)"
| "js_lt NegInf NegInf = False"
| "js_lt NegInf _ = True"
| "js_lt _ NegInf = False"
| "js_lt PosInf _ = False"
| "js_lt _ PosInf = True"

fun js_le :: "jsnum \<Rightarrow> jsnum \<Rightarrow> bool" where
  "js_le NaN _ = False"
| "js_le _ NaN = False"
| "js_le (Fin x) (Fin y) = (x \<le> y)"
| "js_le NegInf _ = True"
| "js_le _ PosInf = True"
| "js_le _ NegInf = False"
| "js_le PosInf _ = False"

text \<open>
  \<open>parseFloat(x.toFixed(d))\<close> on a finite number: \<open>toFixed\<close> takes the sign off,
  picks the integer \<open>n\<close> with \<open>n / 10^d\<close> nearest to the magnitude (the larger one on
  a tie) and prints it with \<open>d\<close> decimals; \<open>parseFloat\<close> reads that back.
\<close>

definition toFixed :: "nat \<Rightarrow> real \<Rightarrow> real" where
  "toFixed d x =
     (if x < 0 then - (of_int \<lfloor>(- x) * 10 ^ d + 1 / 2\<rfloor> / 10 ^ d)
      else of_int \<lfloor>x * 10 ^ d + 1 / 2\<rfloor> / 10 ^ d)"

section \<open>Unit formatter\<close>

record formatted =
  fvalue :: real
  funit :: string

definition getDefaultUnit :: "string \<Rightarrow> string" where
  "getDefaultUnit unitSystem =
     (if unitSystem = ''feet'' \<or> unitSystem = ''survey-feet'' then ''ft'' else ''m'')"

definition formatInMeters :: "real \<Rightarrow> formatted" where
  "formatInMeters kmValue =
     (let meters = kmValue * 1000;
          centimeters = meters * 100;
          millimeters = centimeters * 10
      in if millimeters \<ge> 0.1 \<and> millimeters < 10 then
           \<lparr>fvalue = toFixed 3 millimeters, funit = ''mm''\<rparr>
         else if millimeters \<ge> 10 \<and> millimeters < 1000 then
           \<lparr>fvalue = toFixed 4 (millimeters / 10), funit = ''cm''\<rparr>
         else if centimeters \<ge> 100 \<and> centimeters < 10000 then
           \<lparr>fvalue = toFixed 3 (centimeters / 100), funit = ''m''\<rparr>
         else if meters \<ge> 0.001 \<and> meters < 1000 then
           (if meters < 1 then \<lparr>fvalue = toFixed 6 meters, funit = ''m''\<rparr>
            else \<lparr>fvalue = toFixed 3 meters, funit = ''m''\<rparr>)
         else \<lparr>fvalue = toFixed 6 kmValue, funit = ''km''\<rparr>)"

definition formatInFeet :: "real \<Rightarrow> formatted" where
  "formatInFeet kmValue =
     (let meters = kmValue * 1000;
          feet = meters / 0.3048;
          inches = feet * 12;
          miles = feet / 5280
      in if inches \<ge> 0.1 \<and> inches < 12 then
           \<lparr>fvalue = toFixed 3 inches, funit = ''in''\<rparr>
         else if feet \<ge> 1 \<and> feet < 5280 then
           \<lparr>fvalue = toFixed 3 feet, funit = ''ft''\<rparr>
         else \<lparr>fvalue = toFixed 6 miles, funit = ''mi''\<rparr>)"

definition formatInSurveyFeet :: "real \<Rightarrow> formatted" where
  "formatInSurveyFeet kmValue =
     (let meters = kmValue * 1000;
          surveyFeet = meters / 0.30480061;
          inches = surveyFeet * 12;
          miles = surveyFeet / 5280
      in if inches \<ge> 0.1 \<and> inches < 12 then
           \<lparr>fvalue = toFixed 3 inches, funit = ''in''\<rparr>
         else if surveyFeet \<ge> 1 \<and> surveyFeet < 5280 then
           \<lparr>fvalue = toFixed 3 surveyFeet, funit = ''ft''\<rparr>
         else \<lparr>fvalue = toFixed 6 miles, funit = ''mi''\<rparr>)"

text \<open>
  The guard lets only finite, non-negative numbers through, so the three formatters
  are applied to the real value of the argument.
\<close>

definition formatDistanceWithDynamicUnits :: "jsnum \<Rightarrow> string \<Rightarrow> formatted" where
  "formatDistanceWithDynamicUnits kmValue unitSystem =
     (if isNaN kmValue \<or> \<not> isFinite kmValue \<or> js_lt kmValue (Fin 0) then
        \<lparr>fvalue = 0, funit = getDefaultUnit unitSystem\<rparr>
      else if unitSystem = ''feet'' then formatInFeet (finval kmValue)
      else if unitSystem = ''survey-feet'' then formatInSurveyFeet (finval kmValue)
      else formatInMeters (finval kmValue))"


section \<open>Coordinate converter\<close>

text \<open>The arithmetic the converter does on numbers that may be infinite.\<close>

fun js_abs :: "jsnum \<Rightarrow> jsnum" where
  "js_abs NaN = NaN"
| "js_abs PosInf = PosInf"
| "js_abs NegInf = PosInf"
| "js_abs (Fin x) = Fin \<bar>x\<bar>"

fun js_neg :: "jsnum \<Rightarrow> jsnum" where
  "js_neg NaN = NaN"
| "js_neg PosInf = NegInf"
| "js_neg NegInf = PosInf"
| "js_neg (Fin x) = Fin (- x)"

fun js_add :: "jsnum \<Rightarrow> jsnum \<Rightarrow> jsnum" where
  "js_add NaN _ = NaN"
| "js_add _ NaN = NaN"
| "js_add (Fin x) (Fin y) = Fin (x + y)"
| "js_add PosInf NegInf = NaN"
| "js_add NegInf PosInf = NaN"
| "js_add PosInf _ = PosInf"
| "js_add NegInf _ = NegInf"
| "js_add _ PosInf = PosInf"
| "js_add _ NegInf = NegInf"

text \<open>Division by a positive literal (\<open>60\<close>, \<open>3600\<close>).\<close>

fun js_div_by :: "jsnum \<Rightarrow> real \<Rightarrow> jsnum" where
  "js_div_by (Fin x) c = Fin (x / c)"
| "js_div_by v c = v"

fun upperChar :: "char \<Rightarrow> char" where
  "upperChar c =
     (if of_char c \<ge> (97::nat) \<and> of_char c \<le> (122::nat)
      then char_of (of_char c - (32::nat)) else c)"

definition toUpperCase :: "string \<Rightarrow> string" where
  "toUpperCase s = map upperChar s"

record dms =
  degrees :: real
  minutes :: real
  seconds :: real
  cardinal :: string

definition decimalToDMS :: "jsnum \<Rightarrow> bool \<Rightarrow> dms option" where
  "decimalToDMS decimalDegrees includeCardinal =
     (if isNaN decimalDegrees \<or> \<not> isFinite decimalDegrees then None
      else
        let v = finval decimalDegrees;
            isNegative = (v < 0);
            absDegrees = \<bar>v\<bar>;
            degs = of_int \<lfloor>absDegrees\<rfloor>;
            minutesFloat = (absDegrees - degs) * 60;
            mins = of_int \<lfloor>minutesFloat\<rfloor>;
            secs = (minutesFloat - mins) * 60;
            crd = (if includeCardinal then (if isNegative then ''S'' else ''N'') else [])
        in Some \<lparr>degrees = (if isNegative then - degs else degs),
                  minutes = mins,
                  seconds = toFixed 5 secs,
                  cardinal = crd\<rparr>)"

definition dmsToDecimal :: "jsnum \<Rightarrow> jsnum \<Rightarrow> jsnum \<Rightarrow> string \<Rightarrow> jsnum option" where
  "dmsToDecimal degs mins secs crd =
     (if isNaN degs \<or> isNaN mins \<or> isNaN secs then None
      else
        let isNegative = (js_lt degs (Fin 0) \<or> toUpperCase crd = ''S''
                            \<or> toUpperCase crd = ''W'');
            absDegrees = js_abs degs;
            decimal = js_add (js_add absDegrees (js_div_by mins 60)) (js_div_by secs 3600)
        in Some (if isNegative then js_neg decimal else decimal))"

text \<open>
  The round trip of the specification: \<open>decimalToDMS\<close>, then \<open>dmsToDecimal\<close> on the
  four components it returned.
\<close>

definition roundTripDMS :: "jsnum \<Rightarrow> bool \<Rightarrow> jsnum option" where
  "roundTripDMS decimalDegrees includeCardinal =
     (case decimalToDMS decimalDegrees includeCardinal of
        None \<Rightarrow> None
      | Some d \<Rightarrow>
          dmsToDecimal (Fin (degrees d)) (Fin (minutes d)) (Fin (seconds d)) (cardinal d))"

text \<open>
  Rounding of a real to the nearest binary64 number, ties to the even significand
  (53 bits; the exponent range is not limited, so overflow and subnormal numbers are
  not modelled): \<open>binade x\<close> is the exponent of \<open>x\<close>, \<open>ulp x\<close> the distance between
  neighbouring binary64 numbers there.
\<close>

definition binade :: "real \<Rightarrow> int" where
  "binade x = \<lfloor>log 2 \<bar>x\<bar>\<rfloor>"

definition ulp :: "real \<Rightarrow> real" where
  "ulp x = 2 powr (of_int (binade x) - 52)"

definition roundEven :: "real \<Rightarrow> int" where
  "roundEven q =
     (let f = \<lfloor>q\<rfloor>
      in if q - of_int f < 1 / 2 then f
         else if q - of_int f > 1 / 2 then f + 1
         else if even f then f else f + 1)"

definition round64 :: "real \<Rightarrow> real" where
  "round64 x = (if x = 0 then 0 else ulp x * of_int (roundEven (x / ulp x)))"

text \<open>
  The two \<open>while\<close> loops of \<open>validateAndNormalize\<close>, on binary64 numbers:
  \<open>normalizedLon -= 360\<close> and \<open>normalizedLon += 360\<close> round their result. A loop need
  not end, so each is a partial function: \<open>None\<close> is a loop that runs forever.
\<close>

partial_function (option) wrapDown :: "real \<Rightarrow> real option" where
  "wrapDown x = (if x > 180 then wrapDown (round64 (x - 360)) else Some x)"

partial_function (option) wrapUp :: "real \<Rightarrow> real option" where
  "wrapUp x = (if x < - 180 then wrapUp (round64 (x + 360)) else Some x)"

record latlon =
  lat :: jsnum
  lon :: jsnum

text \<open>
  \<open>validateAndNormalize\<close> returns \<open>null\<close> (\<open>Some None\<close>), a pair (\<open>Some (Some r)\<close>), or
  does not return (\<open>None\<close>). The longitude is normalised before the latitude is
  looked at, as in the source.
\<close>

definition validateAndNormalize :: "jsnum \<Rightarrow> jsnum \<Rightarrow> latlon option option" where
  "validateAndNormalize la lo =
     (if isNaN la \<or> isNaN lo \<or> \<not> isFinite la \<or> \<not> isFinite lo then Some None
      else
        case wrapDown (finval lo) of
          None \<Rightarrow> None
        | Some x \<Rightarrow>
            (case wrapUp x of
               None \<Rightarrow> None
             | Some normalizedLon \<Rightarrow>
                 if js_lt la (Fin (- 90)) \<or> js_lt (Fin 90) la then Some None
                 else Some (Some \<lparr>lat = la, lon = Fin normalizedLon\<rparr>)))"

section \<open>Coordinate parser: the space-separated DMS sextuple\<close>

text \<open>
  Strings are ASCII. \<open>isSpace\<close> is what \<open>\s\<close> and \<open>trim\<close> take for white space
  there, \<open>isDigit\<close> is \<open>\d\<close>.
\<close>

definition isSpace :: "char \<Rightarrow> bool" where
  "isSpace c = (of_char c = (32::nat) \<or> ((9::nat) \<le> of_char c \<and> of_char c \<le> (13::nat)))"

definition isDigit :: "char \<Rightarrow> bool" where
  "isDigit c = ((48::nat) \<le> of_char c \<and> of_char c \<le> (57::nat))"

definition trim :: "string \<Rightarrow> string" where
  "trim s = rev (dropWhile isSpace (rev (dropWhile isSpace s)))"

text \<open>The maximal runs of characters that are not white space, in order.\<close>

fun splitSpaces :: "string \<Rightarrow> string \<Rightarrow> string list" where
  "splitSpaces cur [] = (if cur = [] then [] else [rev cur])"
| "splitSpaces cur (c # cs) =
     (if isSpace c then (if cur = [] then splitSpaces [] cs else rev cur # splitSpaces [] cs)
      else splitSpaces (c # cur) cs)"

text \<open>The three shapes of a group: \<open>\d+\<close>, \<open>-?\d+\<close> and \<open>\d+(?:\.\d+)?\<close>.\<close>

definition isDigits :: "string \<Rightarrow> bool" where
  "isDigits s = (s \<noteq> [] \<and> list_all isDigit s)"

definition isSignedDigits :: "string \<Rightarrow> bool" where
  "isSignedDigits s = (case s of [] \<Rightarrow> False
     | c # r \<Rightarrow> if c = CHR ''-'' then isDigits r else isDigits s)"

definition isDecimal :: "string \<Rightarrow> bool" where
  "isDecimal s =
     (let ip = takeWhile isDigit s; r = dropWhile isDigit s
      in ip \<noteq> [] \<and> (case r of [] \<Rightarrow> True | c # f \<Rightarrow> c = CHR ''.'' \<and> isDigits f))"

text \<open>
  The pattern \<open>dmsSpaceSeparated\<close>,
  \<^verbatim>\<open>/^(-?\d+)\s+(\d+)\s+(\d+(?:\.\d+)?)\s+(-?\d+)\s+(\d+)\s+(\d+(?:\.\d+)?)$/\<close>.
  It is anchored at both ends and its groups hold no white space, so it matches
  exactly when the string starts and ends with a group and splits at its white space
  into six runs of these shapes; the runs are the groups.
\<close>

definition dmsSpaceSeparated_exec ::
    "string \<Rightarrow> (string \<times> string \<times> string \<times> string \<times> string \<times> string) option" where
  "dmsSpaceSeparated_exec s =
     (if s = [] \<or> isSpace (hd s) \<or> isSpace (last s) then None
      else case splitSpaces [] s of
        [g1, g2, g3, g4, g5, g6] \<Rightarrow>
          if isSignedDigits g1 \<and> isDigits g2 \<and> isDecimal g3 \<and>
             isSignedDigits g4 \<and> isDigits g5 \<and> isDecimal g6
          then Some (g1, g2, g3, g4, g5, g6) else None
      | _ \<Rightarrow> None)"

text \<open>
  \<open>parseFloat\<close> on a string that starts with a decimal literal \<open>-?\d+(\.\d+)?\<close>,
  which is all a group of the pattern can hold: the value of that literal.
\<close>

definition digitsVal :: "string \<Rightarrow> nat" where
  "digitsVal s = foldl (\<lambda>n c. 10 * n + (of_char c - 48)) 0 s"

definition parseUnsigned :: "string \<Rightarrow> real" where
  "parseUnsigned s =
     (let ip = takeWhile isDigit s;
          r = dropWhile isDigit s;
          fp = (case r of [] \<Rightarrow> [] | c # f \<Rightarrow> if c = CHR ''.'' then takeWhile isDigit f else [])
      in real (digitsVal ip) + real (digitsVal fp) / 10 ^ length fp)"

definition parseFloat :: "string \<Rightarrow> real" where
  "parseFloat s = (case s of [] \<Rightarrow> 0
     | c # r \<Rightarrow> if c = CHR ''-'' then - parseUnsigned r else parseUnsigned s)"

text \<open>\<open>CoordinateParser.dmsToDecimal\<close>, the parser's own three-argument conversion.\<close>

definition dmsToDecimal_parser :: "real \<Rightarrow> real \<Rightarrow> real \<Rightarrow> real" where
  "dmsToDecimal_parser degs mins secs =
     (let sign = (if degs < 0 then - 1 else 1)
      in sign * (\<bar>degs\<bar> + mins / 60 + secs / 3600))"

definition parseDMSSpaceSeparated ::
    "string \<times> string \<times> string \<times> string \<times> string \<times> string \<Rightarrow> latlon" where
  "parseDMSSpaceSeparated m =
     (case m of (latDeg, latMin, latSec, lonDeg, lonMin, lonSec) \<Rightarrow>
        \<lparr>lat = Fin (dmsToDecimal_parser (parseFloat latDeg) (parseFloat latMin) (parseFloat latSec)),
         lon = Fin (dmsToDecimal_parser (parseFloat lonDeg) (parseFloat lonMin) (parseFloat lonSec))\<rparr>)"

text \<open>
  \<open>parseCoordinate\<close> tries \<open>dmsSpaceSeparated\<close> first and returns at once when it
  matches. The four patterns it tries afterwards (they need the degree and prime
  signs) are the parameter \<open>later\<close>: what they do with a string the first pattern
  rejects.
\<close>

definition parseCoordinate :: "(string \<Rightarrow> latlon option) \<Rightarrow> string \<Rightarrow> latlon option" where
  "parseCoordinate later input =
     (if input = [] then None
      else
        let trimmedInput = trim input
        in case dmsSpaceSeparated_exec trimmedInput of
             Some m \<Rightarrow> Some (parseDMSSpaceSeparated m)
           | None \<Rightarrow> later trimmedInput)"

section \<open>Distance engine\<close>

record distance =
  km :: real
  miles :: real

record coordinate = latlon +
  elevation :: "jsnum option"

definition earthRadiusKm :: real where
  "earthRadiusKm = 6371"

definition earthRadiusMiles :: real where
  "earthRadiusMiles = 3959"

definition validateCoordinates :: "jsnum \<Rightarrow> jsnum \<Rightarrow> bool" where
  "validateCoordinates la lo =
     (js_le (Fin (- 90)) la \<and> js_le la (Fin 90) \<and> js_le (Fin (- 180)) lo \<and> js_le lo (Fin 180)
      \<and> \<not> isNaN la \<and> \<not> isNaN lo \<and> isFinite la \<and> isFinite lo)"

definition toRadians :: "real \<Rightarrow> real" where
  "toRadians degs = degs * (pi / 180)"

text \<open>\<open>Math.atan2(y, x)\<close> on finite arguments.\<close>

definition atan2 :: "real \<Rightarrow> real \<Rightarrow> real" where
  "atan2 y x =
     (if x > 0 then arctan (y / x)
      else if x < 0 then (if y \<ge> 0 then arctan (y / x) + pi else arctan (y / x) - pi)
      else if y > 0 then pi / 2
      else if y < 0 then - (pi / 2)
      else 0)"

text \<open>
  The haversine term \<open>a\<close> of two points given in radians, over the reals, where it
  lies in \<open>[0, 1]\<close> when the latitudes are in range (\<open>haversine_a_valid\<close> below) and
  \<open>Math.sqrt\<close> is the real square root on \<open>a\<close> and \<open>1 - a\<close>. The source has no clamp:
  in binary64 the rounded term can come out just above \<open>1\<close> for two (nearly) antipodal
  points, \<open>Math.sqrt(1 - a)\<close> is then \<open>NaN\<close> and so are both fields of the result.
  This happens only within a few meters of the antipode; the statements below that
  compare kilometers are therefore made for points at most 20000 km apart.
\<close>

definition haversine_a :: "real \<Rightarrow> real \<Rightarrow> real \<Rightarrow> real \<Rightarrow> real" where
  "haversine_a lat1Rad lon1Rad lat2Rad lon2Rad =
     (let deltaLat = lat2Rad - lat1Rad;
          deltaLon = lon2Rad - lon1Rad
      in sin (deltaLat / 2) * sin (deltaLat / 2) +
         cos lat1Rad * cos lat2Rad * sin (deltaLon / 2) * sin (deltaLon / 2))"

definition calculate2DDistance :: "jsnum \<Rightarrow> jsnum \<Rightarrow> jsnum \<Rightarrow> jsnum \<Rightarrow> distance option" where
  "calculate2DDistance lat1 lon1 lat2 lon2 =
     (if \<not> validateCoordinates lat1 lon1 \<or> \<not> validateCoordinates lat2 lon2 then None
      else
        let lat1Rad = toRadians (finval lat1);
            lon1Rad = toRadians (finval lon1);
            lat2Rad = toRadians (finval lat2);
            lon2Rad = toRadians (finval lon2);
            a = haversine_a lat1Rad lon1Rad lat2Rad lon2Rad;
            c = 2 * atan2 (sqrt a) (sqrt (1 - a));
            distanceKm = earthRadiusKm * c;
            distanceMiles = earthRadiusMiles * c
        in Some \<lparr>km = toFixed 6 distanceKm, miles = toFixed 6 distanceMiles\<rparr>)"

definition calculate3DDistance ::
    "jsnum \<Rightarrow> jsnum \<Rightarrow> jsnum \<Rightarrow> jsnum \<Rightarrow> jsnum \<Rightarrow> jsnum \<Rightarrow> distance option" where
  "calculate3DDistance lat1 lon1 elev1 lat2 lon2 elev2 =
     (case calculate2DDistance lat1 lon1 lat2 lon2 of
        None \<Rightarrow> None
      | Some distance2D \<Rightarrow>
          if isNaN elev1 \<or> isNaN elev2 \<or> \<not> isFinite elev1 \<or> \<not> isFinite elev2
          then Some distance2D
          else
            let elevationDiff = \<bar>finval elev1 - finval elev2\<bar>;
                distance2DMeters = km distance2D * 1000;
                distance3DMeters = sqrt (distance2DMeters ^ 2 + elevationDiff ^ 2);
                distance3DKm = distance3DMeters / 1000;
                distance3DMiles = distance3DKm * 0.621371
            in Some \<lparr>km = toFixed 6 distance3DKm, miles = toFixed 6 distance3DMiles\<rparr>)"

text \<open>
  \<open>coord.elevation || 0\<close>: a missing elevation (\<open>null\<close>), \<open>NaN\<close> and zero are falsy.
\<close>

fun elevationOrZero :: "jsnum option \<Rightarrow> jsnum" where
  "elevationOrZero None = Fin 0"
| "elevationOrZero (Some NaN) = Fin 0"
| "elevationOrZero (Some v) = v"

record statistics =
  min_km :: real
  max_km :: real
  average :: real
  count :: nat

definition calculateStatistics :: "real list \<Rightarrow> statistics option" where
  "calculateStatistics distances =
     (if distances = [] then None
      else
        let sorted_ds = sort distances;
            total = foldl (\<lambda>acc v. acc + v) 0 distances;
            avg = total / real (length distances)
        in Some \<lparr>min_km = toFixed 6 (sorted_ds ! 0),
                  max_km = toFixed 6 (sorted_ds ! (length sorted_ds - 1)),
                  average = toFixed 6 avg,
                  count = length distances\<rparr>)"

record segment =
  seg_from :: nat
  seg_to :: nat
  seg_distance :: distance

record cumulative =
  totalKm :: real
  totalMiles :: real
  segments :: "segment list"

definition segmentDistance :: "coordinate list \<Rightarrow> bool \<Rightarrow> nat \<Rightarrow> distance option" where
  "segmentDistance coordinates include3D i =
     (let coord1 = coordinates ! i;
          coord2 = coordinates ! (i + 1)
      in if include3D then
           calculate3DDistance (lat coord1) (lon coord1) (elevationOrZero (elevation coord1))
             (lat coord2) (lon coord2) (elevationOrZero (elevation coord2))
         else calculate2DDistance (lat coord1) (lon coord1) (lat coord2) (lon coord2))"

text \<open>One round of the loop of \<open>calculateCumulativeDistance\<close>, on its three variables.\<close>

fun cumulativeStep ::
    "coordinate list \<Rightarrow> bool \<Rightarrow> nat \<Rightarrow> real \<times> real \<times> segment list \<Rightarrow> real \<times> real \<times> segment list" where
  "cumulativeStep coordinates include3D i (totalDistanceKm, totalDistanceMiles, segmentDistances) =
     (case segmentDistance coordinates include3D i of
        None \<Rightarrow> (totalDistanceKm, totalDistanceMiles, segmentDistances)
      | Some d \<Rightarrow>
          (totalDistanceKm + km d, totalDistanceMiles + miles d,
           segmentDistances @ [\<lparr>seg_from = i + 1, seg_to = i + 2, seg_distance = d\<rparr>]))"

definition calculateCumulativeDistance :: "coordinate list \<Rightarrow> bool \<Rightarrow> cumulative option" where
  "calculateCumulativeDistance coordinates include3D =
     (if length coordinates < 2 then None
      else
        case fold (cumulativeStep coordinates include3D) [0..<length coordinates - 1] (0, 0, []) of
          (totalDistanceKm, totalDistanceMiles, segmentDistances) \<Rightarrow>
            Some \<lparr>totalKm = toFixed 6 totalDistanceKm,
                  totalMiles = toFixed 6 totalDistanceMiles,
                  segments = segmentDistances\<rparr>)"

text \<open>
  A matrix is a list of rows; a cell is \<open>None\<close> while it is an empty slot and when it
  holds \<open>null\<close>, and \<open>Some d\<close> when it holds the distance \<open>d\<close>.
\<close>

type_synonym matrix = "distance option list list"

definition createEmptyMatrix :: "nat \<Rightarrow> matrix" where
  "createEmptyMatrix n = replicate n (replicate n None)"

definition setCell :: "matrix \<Rightarrow> nat \<Rightarrow> nat \<Rightarrow> distance option \<Rightarrow> matrix" where
  "setCell m i j v = m[i := (m ! i)[j := v]]"

text \<open>
  The body of the two nested loops of \<open>calculateDistanceMatrix\<close>, on the four
  variables it updates: the two matrices (\<open>None\<close> for a matrix that was not asked for)
  and the two lists of observations.
\<close>

fun cellStep ::
    "coordinate list \<Rightarrow> nat \<Rightarrow> nat \<Rightarrow> matrix option \<times> matrix option \<times> real list \<times> real list
      \<Rightarrow> matrix option \<times> matrix option \<times> real list \<times> real list" where
  "cellStep coordinates i j (m2D, m3D, distances2D, distances3D) =
     (if i = j then
        (map_option (\<lambda>m. setCell m i j (Some \<lparr>km = 0, miles = 0\<rparr>)) m2D,
         map_option (\<lambda>m. setCell m i j (Some \<lparr>km = 0, miles = 0\<rparr>)) m3D,
         distances2D, distances3D)
      else
        let coord1 = coordinates ! i;
            coord2 = coordinates ! j;
            dist2D = calculate2DDistance (lat coord1) (lon coord1) (lat coord2) (lon coord2);
            dist3D = calculate3DDistance
                       (lat coord1) (lon coord1) (elevationOrZero (elevation coord1))
                       (lat coord2) (lon coord2) (elevationOrZero (elevation coord2))
        in (map_option (\<lambda>m. setCell m i j dist2D) m2D,
            map_option (\<lambda>m. setCell m i j dist3D) m3D,
            (if m2D = None then distances2D
             else case dist2D of None \<Rightarrow> distances2D | Some d \<Rightarrow> distances2D @ [km d]),
            (if m3D = None then distances3D
             else case dist3D of None \<Rightarrow> distances3D | Some d \<Rightarrow> distances3D @ [km d])))"

definition matrixLoops ::
    "coordinate list \<Rightarrow> nat \<Rightarrow> matrix option \<times> matrix option \<times> real list \<times> real list
      \<Rightarrow> matrix option \<times> matrix option \<times> real list \<times> real list" where
  "matrixLoops coordinates n st =
     fold (\<lambda>i st1. fold (\<lambda>j st2. cellStep coordinates i j st2) [0..<n] st1) [0..<n] st"

text \<open>
  The result of \<open>calculateDistanceMatrix\<close>, without its last field (the input
  coordinates, each with a label).
\<close>

record matrix_result =
  matrix2D :: "matrix option"
  matrix3D :: "matrix option"
  statistics2D :: "statistics option"
  statistics3D :: "statistics option"
  cumulative2D :: "cumulative option"
  cumulative3D :: "cumulative option"

definition calculateDistanceMatrix ::
    "coordinate list \<Rightarrow> bool \<Rightarrow> bool \<Rightarrow> matrix_result option" where
  "calculateDistanceMatrix coordinates include2D include3D =
     (if length coordinates < 2 then None
      else
        let n = length coordinates;
            m2D = (if include2D then Some (createEmptyMatrix n) else None);
            m3D = (if include3D then Some (createEmptyMatrix n) else None)
        in case matrixLoops coordinates n (m2D, m3D, [], []) of
             (m2D', m3D', distances2D, distances3D) \<Rightarrow>
               Some \<lparr>matrix2D = m2D',
                     matrix3D = m3D',
                     statistics2D = (if include2D then calculateStatistics distances2D else None),
                     statistics3D = (if include3D then calculateStatistics distances3D else None),
                     cumulative2D =
                       (if include2D then calculateCumulativeDistance coordinates False else None),
                     cumulative3D =
                       (if include3D then calculateCumulativeDistance coordinates True else None)\<rparr>)"


text \<open>
  Names for what the loops are shown to compute: the cell written at \<open>(i, j)\<close>, the
  observation pushed there, and all observations in the order of the loops.
\<close>

definition cell2D :: "coordinate list \<Rightarrow> nat \<Rightarrow> nat \<Rightarrow> distance option" where
  "cell2D coordinates i j =
     (if i = j then Some \<lparr>km = 0, miles = 0\<rparr>
      else calculate2DDistance (lat (coordinates ! i)) (lon (coordinates ! i))
             (lat (coordinates ! j)) (lon (coordinates ! j)))"

definition cell3D :: "coordinate list \<Rightarrow> nat \<Rightarrow> nat \<Rightarrow> distance option" where
  "cell3D coordinates i j =
     (if i = j then Some \<lparr>km = 0, miles = 0\<rparr>
      else calculate3DDistance
             (lat (coordinates ! i)) (lon (coordinates ! i))
             (elevationOrZero (elevation (coordinates ! i)))
             (lat (coordinates ! j)) (lon (coordinates ! j))
             (elevationOrZero (elevation (coordinates ! j))))"

definition observation :: "nat \<Rightarrow> nat \<Rightarrow> distance option \<Rightarrow> real list" where
  "observation i j c = (if i = j then [] else case c of None \<Rightarrow> [] | Some d \<Rightarrow> [km d])"

definition observations :: "(nat \<Rightarrow> nat \<Rightarrow> distance option) \<Rightarrow> nat \<Rightarrow> nat \<Rightarrow> real list" where
  "observations f n k =
     concat (map (\<lambda>i. concat (map (\<lambda>j. observation i j (f i j)) [0..<n])) [0..<k])"

definition allValid :: "coordinate list \<Rightarrow> bool" where
  "allValid coordinates = list_all (\<lambda>c. validateCoordinates (lat c) (lon c)) coordinates"

text \<open>Two points on the equator, one degree apart, the second with an elevation.\<close>

definition equatorPair :: "coordinate list" where
  "equatorPair = [\<lparr>lat = Fin 0, lon = Fin 0, elevation = None\<rparr>,
                  \<lparr>lat = Fin 0, lon = Fin 1, elevation = Some (Fin 100)\<rparr>]"

section \<open>Rounding to a fixed number of decimals\<close>

lemma toFixed_zero: "toFixed d 0 = 0"
  by (simp add: toFixed_def)

lemma toFixed_pos:
  assumes h: "1 / 2 \<le> x * 10 ^ d"
  shows "0 < toFixed d x"
proof -
  have "0 \<le> x * 10 ^ d" using h by linarith
  moreover have "0 < (10::real) ^ d" by simp
  ultimately have x0: "0 \<le> x" using zero_le_mult_iff[of x "10 ^ d"] by linarith
  have "1 \<le> \<lfloor>x * 10 ^ d + 1 / 2\<rfloor>" using h by linarith
  then have "0 < (of_int \<lfloor>x * 10 ^ d + 1 / 2\<rfloor> :: real)" by linarith
  then show ?thesis using x0 by (simp add: toFixed_def)
qed

section \<open>Properties of the unit formatter\<close>

lemma formatInMeters_zero: "formatInMeters 0 = \<lparr>fvalue = 0, funit = ''km''\<rparr>"
  by (simp add: formatInMeters_def toFixed_zero)

text \<open>
  A non-negative distance never comes out as zero meters: the unit \<open>m\<close> is chosen
  from one meter upwards only, and such a value does not round to zero.
\<close>

lemma formatInMeters_not_zero_m:
  assumes "0 \<le> k"
  shows "formatInMeters k \<noteq> \<lparr>fvalue = 0, funit = ''m''\<rparr>"
proof
  assume e: "formatInMeters k = \<lparr>fvalue = 0, funit = ''m''\<rparr>"
  then have u: "funit (formatInMeters k) = ''m''" and v: "fvalue (formatInMeters k) = 0"
    by simp_all
  from u have m: "1 \<le> k * 1000"
    by (simp add: formatInMeters_def Let_def split: if_splits)
  have "0 < toFixed 3 (k * 1000)" using m by (intro toFixed_pos) simp
  moreover have "fvalue (formatInMeters k) = toFixed 3 (k * 1000)"
    using m u by (simp add: formatInMeters_def Let_def mult.commute split: if_splits)
  ultimately show False using v by simp
qed

text \<open>
  C10. \<open>formatDistanceWithDynamicUnits(0, "meters")\<close> is \<open>{value: 0, unit: "km"}\<close>: zero
  is in none of the millimeter, centimeter and meter brackets. In the \<open>meters\<close>
  system the zero value with the default unit \<open>m\<close> is returned for \<open>NaN\<close>, an
  infinite or a negative argument, and for no other.
\<close>

theorem formatDistance_zero_is_km:
  "formatDistanceWithDynamicUnits (Fin 0) ''meters'' = \<lparr>fvalue = 0, funit = ''km''\<rparr> \<and>
   (formatDistanceWithDynamicUnits k ''meters'' = \<lparr>fvalue = 0, funit = ''m''\<rparr>
      \<longleftrightarrow> isNaN k \<or> \<not> isFinite k \<or> js_lt k (Fin 0))"
proof (intro conjI)
  show "formatDistanceWithDynamicUnits (Fin 0) ''meters'' = \<lparr>fvalue = 0, funit = ''km''\<rparr>"
    by (simp add: formatDistanceWithDynamicUnits_def formatInMeters_zero)
  show "formatDistanceWithDynamicUnits k ''meters'' = \<lparr>fvalue = 0, funit = ''m''\<rparr>
     \<longleftrightarrow> isNaN k \<or> \<not> isFinite k \<or> js_lt k (Fin 0)"
  proof (cases k)
    case (Fin x)
    then show ?thesis
      using formatInMeters_not_zero_m[of x]
      by (simp add: formatDistanceWithDynamicUnits_def getDefaultUnit_def)
  qed (simp_all add: formatDistanceWithDynamicUnits_def getDefaultUnit_def)
qed

theorem formatDistance_zero_is_km_witness:
  "formatDistanceWithDynamicUnits (Fin 0) ''meters'' = \<lparr>fvalue = 0, funit = ''km''\<rparr> \<and>
   formatDistanceWithDynamicUnits NaN ''meters'' = \<lparr>fvalue = 0, funit = ''m''\<rparr> \<and>
   formatDistanceWithDynamicUnits (Fin (- 1)) ''meters'' = \<lparr>fvalue = 0, funit = ''m''\<rparr> \<and>
   formatDistanceWithDynamicUnits (Fin 5) ''meters'' \<noteq> \<lparr>fvalue = 0, funit = ''m''\<rparr>"
  using formatDistance_zero_is_km[of NaN] formatDistance_zero_is_km[of "Fin (- 1)"]
    formatDistance_zero_is_km[of "Fin 5"]
  by simp

text \<open>
  C4, as the source has it. \<open>formatDistanceWithDynamicUnits(0.0005, "meters")\<close> is
  \<open>{value: 50, unit: "cm"}\<close>: 0.0005 km are 500 mm, which is in the centimeter
  bracket. For every non-negative finite number of kilometers the \<open>meters\<close> system
  calls \<open>formatInMeters\<close>, and the unit is chosen by the stated thresholds, tried in
  this order: \<open>mm\<close> for 0.1 to 10 mm, \<open>cm\<close> for 10 to 1000 mm, \<open>m\<close> for 100 to
  10000 cm, \<open>m\<close> again for 0.001 to 1000 m, and \<open>km\<close> otherwise.
\<close>

theorem formatInMeters_thresholds:
  "formatDistanceWithDynamicUnits (Fin 0.0005) ''meters'' = \<lparr>fvalue = 50, funit = ''cm''\<rparr> \<and>
   (0 \<le> k \<longrightarrow> formatDistanceWithDynamicUnits (Fin k) ''meters'' = formatInMeters k) \<and>
   funit (formatInMeters k) =
     (if 0.1 \<le> k * 1000 * 100 * 10 \<and> k * 1000 * 100 * 10 < 10 then ''mm''
      else if 10 \<le> k * 1000 * 100 * 10 \<and> k * 1000 * 100 * 10 < 1000 then ''cm''
      else if 100 \<le> k * 1000 * 100 \<and> k * 1000 * 100 < 10000 then ''m''
      else if 0.001 \<le> k * 1000 \<and> k * 1000 < 1000 then ''m''
      else ''km'')"
proof (intro conjI impI)
  show "formatDistanceWithDynamicUnits (Fin 0.0005) ''meters'' = \<lparr>fvalue = 50, funit = ''cm''\<rparr>"
    by (simp add: formatDistanceWithDynamicUnits_def formatInMeters_def toFixed_def)
  show "formatDistanceWithDynamicUnits (Fin k) ''meters'' = formatInMeters k" if "0 \<le> k"
    using that by (simp add: formatDistanceWithDynamicUnits_def)
  show "funit (formatInMeters k) =
     (if 0.1 \<le> k * 1000 * 100 * 10 \<and> k * 1000 * 100 * 10 < 10 then ''mm''
      else if 10 \<le> k * 1000 * 100 * 10 \<and> k * 1000 * 100 * 10 < 1000 then ''cm''
      else if 100 \<le> k * 1000 * 100 \<and> k * 1000 * 100 < 10000 then ''m''
      else if 0.001 \<le> k * 1000 \<and> k * 1000 < 1000 then ''m''
      else ''km'')"
    by (simp add: formatInMeters_def Let_def)
qed

theorem formatInMeters_thresholds_witness:
  "formatDistanceWithDynamicUnits (Fin 0.0000005) ''meters'' = formatInMeters 0.0000005 \<and>
   funit (formatInMeters 0.0000005) = ''mm'' \<and>
   formatInMeters 0.0000005 = \<lparr>fvalue = 0.5, funit = ''mm''\<rparr>"
proof -
  have "formatInMeters 0.0000005 = \<lparr>fvalue = 0.5, funit = ''mm''\<rparr>"
    by (simp add: formatInMeters_def toFixed_def)
  then show ?thesis
    using formatInMeters_thresholds[of "0.0000005"] by simp
qed

text \<open>The value the specification gives for 0.0005 km is not the one returned.\<close>

theorem formatDistance_half_meter_counterexample:
  "formatDistanceWithDynamicUnits (Fin 0.0005) ''meters'' \<noteq> \<lparr>fvalue = 0.5, funit = ''mm''\<rparr>"
  by (simp add: formatDistanceWithDynamicUnits_def formatInMeters_def toFixed_def)

section \<open>Properties of the coordinate converter\<close>

text \<open>
  \<open>round64\<close> at the numbers needed below: \<open>10^19\<close> is a binary64 number, its
  neighbours are 2048 apart, and \<open>10^19 - 360\<close> rounds back to it; \<open>200 - 360\<close> is exact.
\<close>

lemma binade_eq:
  assumes "2 ^ n \<le> \<bar>x\<bar>" and "\<bar>x\<bar> < 2 ^ Suc n"
  shows "binade x = int n"
proof -
  have pos: "0 < \<bar>x\<bar>" using assms(1) by (smt (verit) zero_less_power)
  have p1: "(2::real) powr real n = 2 ^ n" by (rule powr_realpow) simp
  have p2: "(2::real) powr real (Suc n) = 2 ^ Suc n" by (rule powr_realpow) simp
  have "real n \<le> log 2 \<bar>x\<bar>"
    using assms(1) pos p1 by (simp add: le_log_iff)
  moreover have "log 2 \<bar>x\<bar> < real (Suc n)"
    using assms(2) pos p2 by (simp only: log_less_iff)
  ultimately show ?thesis unfolding binade_def by (simp add: floor_eq_iff)
qed

lemma round64_eqI:
  assumes "2 ^ n \<le> \<bar>x\<bar>" and "\<bar>x\<bar> < 2 ^ Suc n"
    and "u = 2 powr (real n - 52)" and "roundEven (x / u) = r"
  shows "round64 x = u * of_int r"
proof -
  have "x \<noteq> 0" using assms(1) by (smt (verit) zero_less_power)
  moreover have "ulp x = u"
    using binade_eq[OF assms(1,2)] assms(3) by (simp add: ulp_def)
  ultimately show ?thesis using assms(4) by (simp add: round64_def)
qed

lemma round64_absorbs: "round64 (10 ^ 19 - 360) = 10 ^ 19"
proof -
  have "round64 (10 ^ 19 - 360) = 2048 * of_int 4882812500000000"
  proof (rule round64_eqI[where n = 63])
    show "(2::real) ^ 63 \<le> \<bar>10 ^ 19 - 360\<bar>" by simp
    show "\<bar>10 ^ 19 - 360 :: real\<bar> < 2 ^ Suc 63" by simp
    show "(2048::real) = 2 powr (real 63 - 52)" by simp
    show "roundEven ((10 ^ 19 - 360) / 2048) = 4882812500000000"
      by (simp add: roundEven_def Let_def)
  qed
  then show ?thesis by simp
qed

lemma round64_minus_160: "round64 (200 - 360) = - 160"
proof -
  have "round64 (200 - 360) = (1 / 2 ^ 45) * of_int (- 160 * 2 ^ 45)"
  proof (rule round64_eqI[where n = 7])
    show "(2::real) ^ 7 \<le> \<bar>200 - 360\<bar>" by simp
    show "\<bar>200 - 360 :: real\<bar> < 2 ^ Suc 7" by simp
    show "(1 / 2 ^ 45 :: real) = 2 powr (real 7 - 52)" by (simp add: powr_minus_divide)
    show "roundEven ((200 - 360) / (1 / 2 ^ 45)) = - 160 * 2 ^ 45"
      by (simp add: roundEven_def Let_def)
  qed
  then show ?thesis by simp
qed

text \<open>
  A loop whose test fails at once returns its argument. From \<open>10^19\<close> the first loop
  never gets anywhere: every round leaves the number as it is.
\<close>

lemma wrapDown_in_range: "x \<le> 180 \<Longrightarrow> wrapDown x = Some x"
  by (subst wrapDown.simps) simp

lemma wrapUp_in_range: "- 180 \<le> x \<Longrightarrow> wrapUp x = Some x"
  by (subst wrapUp.simps) simp

lemma wrapDown_200: "wrapDown 200 = Some (- 160)"
proof -
  have "wrapDown 200 = wrapDown (round64 (200 - 360))"
    by (subst wrapDown.simps) simp
  then show ?thesis by (simp only: round64_minus_160) (simp add: wrapDown_in_range)
qed

lemma wrapDown_never_returns: "wrapDown (10 ^ 19) = None"
proof (rule ccontr)
  assume "wrapDown (10 ^ 19) \<noteq> None"
  then obtain z where z: "wrapDown (10 ^ 19) = Some z" by auto
  have "x \<noteq> 10 ^ 19" if h: "wrapDown x = Some y" for x y
  proof (rule wrapDown.raw_induct[where P = "\<lambda>x y. x \<noteq> 10 ^ 19", OF _ h])
    fix wd :: "real \<Rightarrow> real option" and x y :: real
    assume ih: "\<And>x y. wd x = Some y \<Longrightarrow> x \<noteq> 10 ^ 19"
      and step: "(if 180 < x then wd (round64 (x - 360)) else Some x) = Some y"
    show "x \<noteq> 10 ^ 19"
    proof
      assume e: "x = 10 ^ 19"
      have "(if 180 < x then wd (round64 (x - 360)) else Some x) = wd (10 ^ 19)"
        unfolding e round64_absorbs by simp
      then have "wd (10 ^ 19) = Some y" using step by simp
      then show False using ih by blast
    qed
  qed
  then show False using z by blast
qed

lemma round64_exact: "round64 (10 ^ 19) = 10 ^ 19"
proof -
  have "round64 (10 ^ 19) = 2048 * of_int 4882812500000000"
  proof (rule round64_eqI[where n = 63])
    show "(2::real) ^ 63 \<le> \<bar>10 ^ 19\<bar>" by simp
    show "\<bar>10 ^ 19 :: real\<bar> < 2 ^ Suc 63" by simp
    show "(2048::real) = 2 powr (real 63 - 52)" by simp
    show "roundEven (10 ^ 19 / 2048) = 4882812500000000"
      by (simp add: roundEven_def Let_def)
  qed
  then show ?thesis by simp
qed

text \<open>
  What does hold of \<open>validateAndNormalize\<close>: arguments that are not finite give
  \<open>null\<close>, and with a longitude already in range the result is \<open>null\<close> for a latitude
  out of range and the unchanged pair otherwise.
\<close>

lemma validateAndNormalize_not_finite:
  "\<not> isFinite la \<or> \<not> isFinite lo \<Longrightarrow> validateAndNormalize la lo = Some None"
  by (auto simp: validateAndNormalize_def)

lemma validateAndNormalize_in_range:
  assumes "- 180 \<le> y" and "y \<le> 180"
  shows "validateAndNormalize (Fin x) (Fin y) =
           Some (if x < - 90 \<or> 90 < x then None else Some \<lparr>lat = Fin x, lon = Fin y\<rparr>)"
  using assms by (simp add: validateAndNormalize_def wrapDown_in_range wrapUp_in_range)

text \<open>
  C5. \<open>validateAndNormalize(91, x)\<close> is claimed to be \<open>null\<close> for every \<open>x\<close>. For the
  binary64 number \<open>x = 1e19\<close> the call does not return: the longitude is normalised
  before the latitude is tested, and \<open>1e19 - 360\<close> is \<open>1e19\<close> again. For a longitude of
  ordinary size the function does what is claimed: \<open>(91, 0)\<close> gives \<open>null\<close> and
  \<open>(45, 200)\<close> gives the longitude \<open>-160\<close>.
\<close>

theorem validateAndNormalize_never_returns:
  "validateAndNormalize (Fin 91) (Fin (10 ^ 19)) = None \<and>
   round64 (10 ^ 19) = 10 ^ 19 \<and>
   validateAndNormalize (Fin 91) (Fin 0) = Some None \<and>
   validateAndNormalize (Fin 45) (Fin 200) = Some (Some \<lparr>lat = Fin 45, lon = Fin (- 160)\<rparr>)"
proof (intro conjI)
  have w: "wrapDown 10000000000000000000 = None"
    using wrapDown_never_returns by simp
  show "validateAndNormalize (Fin 91) (Fin (10 ^ 19)) = None"
    by (simp add: validateAndNormalize_def w)
  show "round64 (10 ^ 19) = 10 ^ 19" by (rule round64_exact)
  show "validateAndNormalize (Fin 91) (Fin 0) = Some None"
    by (simp add: validateAndNormalize_in_range)
  show "validateAndNormalize (Fin 45) (Fin 200) =
      Some (Some \<lparr>lat = Fin 45, lon = Fin (- 160)\<rparr>)"
    by (simp add: validateAndNormalize_def wrapDown_200 wrapUp_in_range)
qed

theorem validateAndNormalize_never_returns_witness:
  "validateAndNormalize (Fin 91) (Fin (10 ^ 19)) \<noteq> Some None \<and>
   validateAndNormalize (Fin 91) (Fin 0) = Some None"
  using validateAndNormalize_never_returns by simp

section \<open>The round trip through degrees, minutes and seconds\<close>

text \<open>Rounding to \<open>d\<close> decimals moves a number by at most half a unit of the last place.\<close>

lemma toFixed_error_nonneg:
  assumes "0 \<le> x"
  shows "\<bar>toFixed d x - x\<bar> \<le> 1 / (2 * 10 ^ d)"
proof -
  define p :: real where "p = 10 ^ d"
  have p: "0 < p" by (simp add: p_def)
  define n where "n = \<lfloor>x * p + 1 / 2\<rfloor>"
  have 1: "of_int n \<le> x * p + 1 / 2" unfolding n_def by linarith
  have 2: "x * p + 1 / 2 < of_int n + 1" unfolding n_def by linarith
  have "\<bar>of_int n - x * p\<bar> \<le> 1 / 2" using 1 2 by linarith
  then have "\<bar>of_int n - x * p\<bar> / p \<le> (1 / 2) / p"
    using p by (intro divide_right_mono) simp_all
  moreover have "\<bar>of_int n - x * p\<bar> / p = \<bar>of_int n / p - x\<bar>"
  proof -
    have e: "of_int n / p - x = (of_int n - x * p) / p"
      using p by (simp add: diff_divide_distrib)
    show ?thesis unfolding e using p by simp
  qed
  moreover have "toFixed d x = of_int n / p"
    using assms by (simp add: toFixed_def n_def p_def)
  ultimately show ?thesis by (simp add: p_def)
qed

lemma toFixed_minus: "toFixed d (- x) = - toFixed d x"
  by (cases "x = 0") (auto simp: toFixed_def)

lemma toFixed_error: "\<bar>toFixed d x - x\<bar> \<le> 1 / (2 * 10 ^ d)"
proof (cases "0 \<le> x")
  case True
  then show ?thesis by (rule toFixed_error_nonneg)
next
  case False
  then have "0 \<le> - x" by simp
  then have "\<bar>toFixed d (- x) - (- x)\<bar> \<le> 1 / (2 * 10 ^ d)" by (rule toFixed_error_nonneg)
  then show ?thesis by (simp add: toFixed_minus)
qed

lemma toUpperCase_consts:
  "toUpperCase [] = []" "toUpperCase ''S'' = ''S''" "toUpperCase ''N'' = ''N''"
  by (simp_all add: toUpperCase_def)

text \<open>
  Where the round trip does work: with a cardinal letter, and without one for every
  value that is not strictly between \<open>-1\<close> and \<open>0\<close>. The result is then within
  \<open>1e-5\<close> degrees of the value.
\<close>

lemma roundTripDMS_close:
  assumes ok: "includeCardinal \<or> 0 \<le> v \<or> v \<le> - 1"
  shows "\<exists>w. roundTripDMS (Fin v) includeCardinal = Some (Fin w) \<and> \<bar>w - v\<bar> \<le> 1 / 100000"
proof -
  define a where "a = \<bar>v\<bar>"
  define dd :: real where "dd = of_int \<lfloor>a\<rfloor>"
  define mf where "mf = (a - dd) * 60"
  define m :: real where "m = of_int \<lfloor>mf\<rfloor>"
  define s where "s = (mf - m) * 60"
  define crd where "crd = (if includeCardinal then (if v < 0 then ''S'' else ''N'') else [])"
  define dg where "dg = (if v < 0 then - dd else dd)"
  have dms: "decimalToDMS (Fin v) includeCardinal =
      Some \<lparr>degrees = dg, minutes = m, seconds = toFixed 5 s, cardinal = crd\<rparr>"
    by (simp add: decimalToDMS_def Let_def a_def dd_def mf_def m_def s_def crd_def dg_def)
  have a0: "0 \<le> a" by (simp add: a_def)
  then have dd0: "0 \<le> dd" by (simp add: dd_def)
  have absdg: "\<bar>dg\<bar> = dd" using dd0 by (simp add: dg_def)
  have neg: "(dg < 0 \<or> toUpperCase crd = ''S'' \<or> toUpperCase crd = ''W'') \<longleftrightarrow> v < 0"
  proof (cases "v < 0")
    case True
    show ?thesis
    proof (cases includeCardinal)
      case True
      with \<open>v < 0\<close> show ?thesis by (simp add: crd_def toUpperCase_consts)
    next
      case False
      with ok True have "v \<le> - 1" by simp
      then have "1 \<le> a" by (simp add: a_def)
      then have "1 \<le> \<lfloor>a\<rfloor>" by linarith
      then have "1 \<le> dd" by (simp add: dd_def)
      with True show ?thesis by (simp add: dg_def)
    qed
  next
    case False
    then show ?thesis using dd0 by (simp add: dg_def crd_def toUpperCase_consts)
  qed
  define rv where "rv = dd + m / 60 + toFixed 5 s / 3600"
  have rt: "roundTripDMS (Fin v) includeCardinal = Some (Fin (if v < 0 then - rv else rv))"
    using neg by (simp add: roundTripDMS_def dms dmsToDecimal_def Let_def absdg rv_def)
  have exact: "a = dd + m / 60 + s / 3600"
    by (simp add: s_def mf_def field_simps)
  have h: "\<bar>toFixed 5 s - s\<bar> \<le> 1 / 200000"
    using toFixed_error[of 5 s] by simp
  have e2: "rv - a = (toFixed 5 s - s) / 3600"
    unfolding rv_def exact by (simp add: field_simps)
  have e3: "\<bar>rv - a\<bar> = \<bar>toFixed 5 s - s\<bar> / 3600"
    unfolding e2 by simp
  have "\<bar>toFixed 5 s - s\<bar> / 3600 \<le> (1 / 200000) / 3600"
    using h by (intro divide_right_mono) simp_all
  then have "\<bar>rv - a\<bar> \<le> 1 / 100000"
    unfolding e3 by simp
  moreover have "\<bar>(if v < 0 then - rv else rv) - v\<bar> = \<bar>rv - a\<bar>"
    by (auto simp: a_def)
  ultimately show ?thesis using rt by simp
qed

text \<open>
  C2. The round trip is claimed to come back within \<open>1e-5\<close> degrees for every
  value, those strictly between \<open>-1\<close> and \<open>0\<close> included. Without a cardinal letter
  (the default of \<open>decimalToDMS\<close>) it does not: for \<open>-0.5\<close> the degrees component is
  zero, \<open>dmsToDecimal\<close> finds neither \<open>degrees < 0\<close> nor a letter \<open>S\<close> or \<open>W\<close>,
  and the value that comes back is \<open>+0.5\<close>.
\<close>

theorem roundTripDMS_loses_sign:
  "decimalToDMS (Fin (- 0.5)) False =
     Some \<lparr>degrees = 0, minutes = 30, seconds = 0, cardinal = []\<rparr> \<and>
   roundTripDMS (Fin (- 0.5)) False = Some (Fin 0.5)"
  by (simp add: roundTripDMS_def decimalToDMS_def dmsToDecimal_def Let_def toFixed_def
      toUpperCase_def)

section \<open>Properties of the parser\<close>

text \<open>
  A sextuple whose longitude degrees carry no minus sign is parsed to a longitude
  that is not negative: the sign comes from the degrees alone.
\<close>

lemma parseUnsigned_nonneg: "0 \<le> parseUnsigned s"
  by (simp add: parseUnsigned_def Let_def)

lemma isDigit_not_minus: "isDigit c \<Longrightarrow> c \<noteq> CHR ''-''"
  by (auto simp: isDigit_def)

lemma parseFloat_nonneg:
  assumes "s \<noteq> []" "hd s \<noteq> CHR ''-''"
  shows "0 \<le> parseFloat s"
  using assms by (cases s) (simp_all add: parseFloat_def parseUnsigned_nonneg)

lemma isDigits_hd: "isDigits s \<Longrightarrow> s \<noteq> [] \<and> hd s \<noteq> CHR ''-''"
  by (cases s) (auto simp: isDigits_def isDigit_not_minus)

lemma isDecimal_hd: "isDecimal s \<Longrightarrow> s \<noteq> [] \<and> hd s \<noteq> CHR ''-''"
  by (cases s) (auto simp: isDecimal_def Let_def isDigit_not_minus split: if_splits)

lemma isSignedDigits_nonempty: "isSignedDigits s \<Longrightarrow> s \<noteq> []"
  by (cases s) (auto simp: isSignedDigits_def)

lemma dmsToDecimal_parser_nonneg:
  "0 \<le> d \<Longrightarrow> 0 \<le> m \<Longrightarrow> 0 \<le> s \<Longrightarrow> 0 \<le> dmsToDecimal_parser d m s"
  by (simp add: dmsToDecimal_parser_def)

lemma dmsSpaceSeparated_exec_shapes:
  assumes "dmsSpaceSeparated_exec s = Some (g1, g2, g3, g4, g5, g6)"
  shows "isSignedDigits g1 \<and> isDigits g2 \<and> isDecimal g3 \<and>
         isSignedDigits g4 \<and> isDigits g5 \<and> isDecimal g6"
  using assms
  by (auto simp: dmsSpaceSeparated_exec_def split: if_splits list.splits)

lemma sextuple_unsigned_lon_nonneg:
  assumes m: "dmsSpaceSeparated_exec (trim input) = Some (g1, g2, g3, g4, g5, g6)"
    and ne: "input \<noteq> []"
    and unsigned: "hd g4 \<noteq> CHR ''-''"
  shows "\<exists>r y. parseCoordinate later input = Some r \<and> lon r = Fin y \<and> 0 \<le> y"
proof -
  from m have sh: "isSignedDigits g4 \<and> isDigits g5 \<and> isDecimal g6"
    using dmsSpaceSeparated_exec_shapes by blast
  have "0 \<le> parseFloat g4"
    using sh unsigned by (intro parseFloat_nonneg) (simp_all add: isSignedDigits_nonempty)
  moreover have "0 \<le> parseFloat g5"
    using sh isDigits_hd[of g5] by (intro parseFloat_nonneg) simp_all
  moreover have "0 \<le> parseFloat g6"
    using sh isDecimal_hd[of g6] by (intro parseFloat_nonneg) simp_all
  ultimately have "0 \<le> dmsToDecimal_parser (parseFloat g4) (parseFloat g5) (parseFloat g6)"
    by (rule dmsToDecimal_parser_nonneg)
  then show ?thesis
    using m ne by (simp add: parseCoordinate_def parseDMSSpaceSeparated_def)
qed

lemma sextuple_example_match:
  "dmsSpaceSeparated_exec ''41 48 15.79259 112 50 1.04150'' =
     Some (''41'', ''48'', ''15.79259'', ''112'', ''50'', ''1.04150'')"
  by (simp add: dmsSpaceSeparated_exec_def isSpace_def isDigit_def isDigits_def
      isSignedDigits_def isDecimal_def)

lemma sextuple_example_trim:
  "trim ''41 48 15.79259 112 50 1.04150'' = ''41 48 15.79259 112 50 1.04150''"
  by (simp add: trim_def isSpace_def)

lemma sextuple_example_numbers:
  "parseFloat ''41'' = 41" "parseFloat ''48'' = 48" "parseFloat ''15.79259'' = 15.79259"
  "parseFloat ''112'' = 112" "parseFloat ''50'' = 50" "parseFloat ''1.04150'' = 1.0415"
  by (simp_all add: parseFloat_def parseUnsigned_def digitsVal_def isDigit_def)

text \<open>
  C1. The sextuple \<open>41 48 15.79259 112 50 1.04150\<close> is claimed to parse to a negative
  longitude (West by default). \<open>parseCoordinate\<close> returns the latitude
  \<open>41.80438...\<close> and the longitude \<open>112.83362...\<close>, which is positive.
\<close>

theorem parseCoordinate_sextuple_east:
  "(case parseCoordinate later ''41 48 15.79259 112 50 1.04150'' of
      None \<Rightarrow> False
    | Some r \<Rightarrow>
        r = \<lparr>lat = Fin (41 + 48 / 60 + 15.79259 / 3600),
             lon = Fin (112 + 50 / 60 + 1.0415 / 3600)\<rparr>
        \<and> js_lt (Fin 0) (lon r))"
  by (simp add: parseCoordinate_def sextuple_example_trim sextuple_example_match
      parseDMSSpaceSeparated_def sextuple_example_numbers dmsToDecimal_parser_def)

section \<open>Properties of the distance engine\<close>

text \<open>Rounding keeps the order and leaves a rounded number as it is.\<close>

lemma toFixed_nonneg: "0 \<le> x \<Longrightarrow> 0 \<le> toFixed d x"
  by (simp add: toFixed_def)

lemma toFixed_nonpos: "x < 0 \<Longrightarrow> toFixed d x \<le> 0"
proof -
  assume "x < 0"
  then have "0 \<le> (- x) * 10 ^ d" by (intro mult_nonneg_nonneg) simp_all
  then have "0 \<le> (- x) * 10 ^ d + 1 / 2" by linarith
  then have "0 \<le> \<lfloor>(- x) * 10 ^ d + 1 / 2\<rfloor>" by simp
  then show ?thesis using \<open>x < 0\<close> by (simp add: toFixed_def)
qed

lemma toFixed_mono:
  assumes "x \<le> y"
  shows "toFixed d x \<le> toFixed d y"
proof -
  have p: "0 < (10::real) ^ d" by simp
  consider "x < 0" "y < 0" | "x < 0" "0 \<le> y" | "0 \<le> x" "0 \<le> y"
    using assms by linarith
  then show ?thesis
  proof cases
    case 1
    have "(- y) * 10 ^ d + 1 / 2 \<le> (- x) * 10 ^ d + 1 / 2"
      using assms p by (simp add: mult_right_mono)
    then have "\<lfloor>(- y) * 10 ^ d + 1 / 2\<rfloor> \<le> \<lfloor>(- x) * 10 ^ d + 1 / 2\<rfloor>"
      by (rule floor_mono)
    then have "(of_int \<lfloor>(- y) * 10 ^ d + 1 / 2\<rfloor> :: real) / 10 ^ d
        \<le> of_int \<lfloor>(- x) * 10 ^ d + 1 / 2\<rfloor> / 10 ^ d"
      using p by (intro divide_right_mono) simp_all
    then show ?thesis using 1 by (simp add: toFixed_def)
  next
    case 2
    then show ?thesis
      using toFixed_nonpos[of x d] toFixed_nonneg[of y d] by linarith
  next
    case 3
    have "x * 10 ^ d + 1 / 2 \<le> y * 10 ^ d + 1 / 2"
      using assms p by (simp add: mult_right_mono)
    then have "\<lfloor>x * 10 ^ d + 1 / 2\<rfloor> \<le> \<lfloor>y * 10 ^ d + 1 / 2\<rfloor>"
      by (rule floor_mono)
    then have "(of_int \<lfloor>x * 10 ^ d + 1 / 2\<rfloor> :: real) / 10 ^ d
        \<le> of_int \<lfloor>y * 10 ^ d + 1 / 2\<rfloor> / 10 ^ d"
      using p by (intro divide_right_mono) simp_all
    then show ?thesis using 3 by (simp add: toFixed_def)
  qed
qed

lemma toFixed_of_int: "toFixed d (of_int n / 10 ^ d) = of_int n / 10 ^ d"
proof (cases "0 \<le> n")
  case True
  have "\<lfloor>(of_int n :: real) + 1 / 2\<rfloor> = n" by linarith
  then show ?thesis using True by (simp add: toFixed_def)
next
  case False
  then have neg: "(of_int n :: real) / 10 ^ d < 0" by (simp add: divide_neg_pos)
  have "\<lfloor>- (of_int n :: real) + 1 / 2\<rfloor> = - n" by linarith
  then show ?thesis using neg by (simp add: toFixed_def)
qed

lemma toFixed_idem: "toFixed d (toFixed d x) = toFixed d x"
proof (cases "x < 0")
  case True
  have "toFixed d x = of_int (- \<lfloor>(- x) * 10 ^ d + 1 / 2\<rfloor>) / 10 ^ d"
    using True by (simp add: toFixed_def)
  then show ?thesis by (simp only: toFixed_of_int)
next
  case False
  have "toFixed d x = of_int \<lfloor>x * 10 ^ d + 1 / 2\<rfloor> / 10 ^ d"
    using False by (simp add: toFixed_def)
  then show ?thesis by (simp only: toFixed_of_int)
qed

text \<open>The range predicate accepts finite numbers in range and nothing else.\<close>

lemma validateCoordinates_iff:
  "validateCoordinates la lo \<longleftrightarrow>
     (\<exists>x y. la = Fin x \<and> lo = Fin y \<and> - 90 \<le> x \<and> x \<le> 90 \<and> - 180 \<le> y \<and> y \<le> 180)"
  by (cases la; cases lo) (auto simp: validateCoordinates_def)

text \<open>
  The haversine term is symmetric in its two points, and for latitudes between
  \<open>-\<pi>/2\<close> and \<open>\<pi>/2\<close> it lies in \<open>[0, 1]\<close>.
\<close>

lemma haversine_a_sym: "haversine_a p1 l1 p2 l2 = haversine_a p2 l2 p1 l1"
proof -
  have 1: "sin ((p1 - p2) / 2) = - sin ((p2 - p1) / 2)"
    by (metis minus_diff_eq minus_divide_left sin_minus)
  have 2: "sin ((l1 - l2) / 2) = - sin ((l2 - l1) / 2)"
    by (metis minus_diff_eq minus_divide_left sin_minus)
  show ?thesis by (simp add: haversine_a_def Let_def 1 2 mult.commute)
qed

lemma haversine_a_range:
  assumes "- (pi / 2) \<le> p1" "p1 \<le> pi / 2" "- (pi / 2) \<le> p2" "p2 \<le> pi / 2"
  shows "0 \<le> haversine_a p1 l1 p2 l2 \<and> haversine_a p1 l1 p2 l2 \<le> 1"
proof -
  define x where "x = (p2 - p1) / 2"
  define y where "y = (l2 - l1) / 2"
  have c1: "0 \<le> cos p1" using assms by (intro cos_ge_zero) simp_all
  have c2: "0 \<le> cos p2" using assms by (intro cos_ge_zero) simp_all
  have cc: "0 \<le> cos p1 * cos p2" using c1 c2 by simp
  have a: "haversine_a p1 l1 p2 l2 = (sin x)\<^sup>2 + cos p1 * cos p2 * (sin y)\<^sup>2"
    by (simp add: haversine_a_def Let_def x_def y_def power2_eq_square mult.assoc)
  have lo: "0 \<le> (sin x)\<^sup>2 + cos p1 * cos p2 * (sin y)\<^sup>2"
    using cc by (simp add: add_nonneg_nonneg)
  have sy: "(sin y)\<^sup>2 \<le> 1" by (simp add: abs_square_le_1 flip: abs_le_square_iff)
  have "cos p1 * cos p2 * (sin y)\<^sup>2 \<le> cos p1 * cos p2 * 1"
    using cc sy by (intro mult_left_mono) simp_all
  then have s1: "cos p1 * cos p2 * (sin y)\<^sup>2 \<le> cos p1 * cos p2" by simp
  have "cos p1 * cos p2 = (cos (p1 - p2) + cos (p1 + p2)) / 2" by (rule cos_times_cos)
  also have "\<dots> \<le> (cos (p1 - p2) + 1) / 2" by simp
  also have "cos (p1 - p2) = cos (2 * x)"
    by (metis x_def cos_minus minus_diff_eq mult.commute nonzero_divide_eq_eq zero_neq_numeral mult_2)
  also have "(cos (2 * x) + 1) / 2 = (cos x)\<^sup>2"
    by (simp add: cos_double_cos)
  finally have s2: "cos p1 * cos p2 \<le> (cos x)\<^sup>2" .
  have "(sin x)\<^sup>2 + cos p1 * cos p2 * (sin y)\<^sup>2 \<le> (sin x)\<^sup>2 + (cos x)\<^sup>2"
    using s1 s2 by linarith
  then have hi: "(sin x)\<^sup>2 + cos p1 * cos p2 * (sin y)\<^sup>2 \<le> 1" by simp
  show ?thesis using lo hi a by simp
qed

text \<open>
  So over the reals, for two points that pass the range predicate, both square roots
  of \<open>calculate2DDistance\<close> are taken of numbers that are not negative, and the
  distance is the same in both directions. The source relies on this without a
  clamp of \<open>a\<close> to \<open>[0, 1]\<close>: for the points \<open>(8, 0)\<close> and \<open>(-8, 180)\<close> the binary64
  value of \<open>a\<close> is \<open>1.0000000000000002\<close>, and the distance returned has \<open>NaN\<close> in
  both fields.
\<close>

lemma toRadians_range:
  assumes "- 90 \<le> x" "x \<le> 90"
  shows "- (pi / 2) \<le> toRadians x \<and> toRadians x \<le> pi / 2"
proof -
  have p: "0 \<le> pi / 180" by simp
  have "x * (pi / 180) \<le> 90 * (pi / 180)" using assms(2) p by (rule mult_right_mono)
  moreover have "(- 90) * (pi / 180) \<le> x * (pi / 180)" using assms(1) p by (rule mult_right_mono)
  ultimately show ?thesis by (simp add: toRadians_def)
qed

lemma haversine_a_valid:
  assumes "validateCoordinates lat1 lon1" and "validateCoordinates lat2 lon2"
  shows "0 \<le> haversine_a (toRadians (finval lat1)) (toRadians (finval lon1))
                 (toRadians (finval lat2)) (toRadians (finval lon2)) \<and>
         haversine_a (toRadians (finval lat1)) (toRadians (finval lon1))
                 (toRadians (finval lat2)) (toRadians (finval lon2)) \<le> 1"
proof -
  obtain x1 y1 where 1: "lat1 = Fin x1" "lon1 = Fin y1" "- 90 \<le> x1" "x1 \<le> 90"
    using assms(1) validateCoordinates_iff[of lat1 lon1] by auto
  obtain x2 y2 where 2: "lat2 = Fin x2" "lon2 = Fin y2" "- 90 \<le> x2" "x2 \<le> 90"
    using assms(2) validateCoordinates_iff[of lat2 lon2] by auto
  show ?thesis
    using toRadians_range[OF 1(3,4)] toRadians_range[OF 2(3,4)]
    by (simp add: 1 2 haversine_a_range)
qed

lemma calculate2DDistance_sym:
  "calculate2DDistance lat1 lon1 lat2 lon2 = calculate2DDistance lat2 lon2 lat1 lon1"
proof -
  have "haversine_a (toRadians (finval lat1)) (toRadians (finval lon1))
          (toRadians (finval lat2)) (toRadians (finval lon2)) =
        haversine_a (toRadians (finval lat2)) (toRadians (finval lon2))
          (toRadians (finval lat1)) (toRadians (finval lon1))"
    by (rule haversine_a_sym)
  then show ?thesis by (auto simp: calculate2DDistance_def Let_def)
qed

lemma calculate2DDistance_None_iff:
  "calculate2DDistance lat1 lon1 lat2 lon2 = None \<longleftrightarrow>
     \<not> validateCoordinates lat1 lon1 \<or> \<not> validateCoordinates lat2 lon2"
  by (simp add: calculate2DDistance_def Let_def)

lemma calculate2DDistance_rounded:
  assumes "calculate2DDistance lat1 lon1 lat2 lon2 = Some d"
  shows "toFixed 6 (km d) = km d"
  using assms by (auto simp: calculate2DDistance_def Let_def toFixed_idem split: if_splits)

lemma calculate3DDistance_finite:
  assumes "calculate2DDistance lat1 lon1 lat2 lon2 = Some d2"
  shows "calculate3DDistance lat1 lon1 (Fin e1) lat2 lon2 (Fin e2) =
     Some \<lparr>km = toFixed 6 (sqrt ((km d2 * 1000)\<^sup>2 + (e1 - e2)\<^sup>2) / 1000),
           miles = toFixed 6 (sqrt ((km d2 * 1000)\<^sup>2 + (e1 - e2)\<^sup>2) / 1000 * 0.621371)\<rparr>"
  using assms by (simp add: calculate3DDistance_def Let_def)


lemma calculate3DDistance_None_iff:
  "calculate3DDistance lat1 lon1 elev1 lat2 lon2 elev2 = None \<longleftrightarrow>
     \<not> validateCoordinates lat1 lon1 \<or> \<not> validateCoordinates lat2 lon2"
proof (cases "calculate2DDistance lat1 lon1 lat2 lon2")
  case None
  then show ?thesis
    using calculate2DDistance_None_iff[of lat1 lon1 lat2 lon2]
    by (simp add: calculate3DDistance_def)
next
  case (Some d)
  then have "\<not> (\<not> validateCoordinates lat1 lon1 \<or> \<not> validateCoordinates lat2 lon2)"
    using calculate2DDistance_None_iff[of lat1 lon1 lat2 lon2] by simp
  then show ?thesis using Some by (simp add: calculate3DDistance_def Let_def)
qed




text \<open>
  When the 2D distance is a number, adding the elevation difference does not make
  the distance shorter: the hypotenuse is at least the horizontal leg, and the
  rounding keeps the order. At the points \<open>(8, 0)\<close> and \<open>(-8, 180)\<close> above the 2D
  distance is \<open>NaN\<close>, and so is the 3D distance, which is not at least anything.
\<close>

lemma distance3D_ge_distance2D_regular:
  assumes "calculate2DDistance lat1 lon1 lat2 lon2 = Some d2" and "km d2 \<le> 20000"
  shows "\<exists>d3. calculate3DDistance lat1 lon1 (Fin e1) lat2 lon2 (Fin e2) = Some d3 \<and>
           km d2 \<le> km d3"
proof -
  define m where "m = km d2 * 1000"
  define h where "h = sqrt (m\<^sup>2 + (e1 - e2)\<^sup>2)"
  have "\<bar>m\<bar> = sqrt (m\<^sup>2)" by (rule real_sqrt_abs[symmetric])
  also have "\<dots> \<le> h" unfolding h_def by (intro real_sqrt_le_mono) simp
  finally have "m \<le> h" by linarith
  then have "km d2 \<le> h / 1000" by (simp add: m_def)
  then have "toFixed 6 (km d2) \<le> toFixed 6 (h / 1000)" by (rule toFixed_mono)
  then have "km d2 \<le> toFixed 6 (h / 1000)"
    using calculate2DDistance_rounded[OF assms(1)] by simp
  then show ?thesis
    using calculate3DDistance_finite[OF assms(1), of e1 e2] by (simp add: h_def m_def)
qed





section \<open>The loops of the distance matrix\<close>

text \<open>
  The four variables of the loops after any number of rounds: each matrix that was
  asked for has had its cells written in order, and each list of observations has
  grown by the observations of those cells.
\<close>

lemma cellStep_eq:
  "cellStep cs i j (m2, m3, d2, d3) =
     (map_option (\<lambda>m. setCell m i j (cell2D cs i j)) m2,
      map_option (\<lambda>m. setCell m i j (cell3D cs i j)) m3,
      (if m2 = None then d2 else d2 @ observation i j (cell2D cs i j)),
      (if m3 = None then d3 else d3 @ observation i j (cell3D cs i j)))"
  by (simp add: cell2D_def cell3D_def observation_def Let_def split: option.splits)

lemma inner_loop:
  "fold (\<lambda>j st. cellStep cs i j st) [0..<k] (m2, m3, d2, d3) =
     (map_option (fold (\<lambda>j m. setCell m i j (cell2D cs i j)) [0..<k]) m2,
      map_option (fold (\<lambda>j m. setCell m i j (cell3D cs i j)) [0..<k]) m3,
      (if m2 = None then d2
       else d2 @ concat (map (\<lambda>j. observation i j (cell2D cs i j)) [0..<k])),
      (if m3 = None then d3
       else d3 @ concat (map (\<lambda>j. observation i j (cell3D cs i j)) [0..<k])))"
proof (induction k)
  case 0
  show ?case by (simp add: option.map_ident)
next
  case (Suc k)
  show ?case
    by (simp add: Suc cellStep_eq option.map_comp comp_def del: cellStep.simps)
qed

lemma outer_loop:
  "fold (\<lambda>i st. fold (\<lambda>j st. cellStep cs i j st) [0..<n] st) [0..<k] (m2, m3, d2, d3) =
     (map_option (fold (\<lambda>i m. fold (\<lambda>j m. setCell m i j (cell2D cs i j)) [0..<n] m) [0..<k]) m2,
      map_option (fold (\<lambda>i m. fold (\<lambda>j m. setCell m i j (cell3D cs i j)) [0..<n] m) [0..<k]) m3,
      (if m2 = None then d2 else d2 @ observations (cell2D cs) n k),
      (if m3 = None then d3 else d3 @ observations (cell3D cs) n k))"
proof (induction k)
  case 0
  show ?case by (simp add: option.map_ident observations_def)
next
  case (Suc k)
  show ?case
    by (simp add: Suc inner_loop option.map_comp comp_def observations_def del: cellStep.simps)
qed

text \<open>
  Writing the cells \<open>0\<close> to \<open>k - 1\<close> of a row one by one gives the row of the values
  written, followed by the rest of the old row; the same holds for the rows of a matrix.
\<close>

lemma fill_row:
  "k \<le> length r \<Longrightarrow> fold (\<lambda>j r. r[j := f j]) [0..<k] r = map f [0..<k] @ drop k r"
proof (induction k)
  case 0
  show ?case by simp
next
  case (Suc k)
  then have k: "k < length r" by simp
  have "fold (\<lambda>j r. r[j := f j]) [0..<Suc k] r = (map f [0..<k] @ drop k r)[k := f k]"
    using Suc by simp
  also have "\<dots> = map f [0..<k] @ (drop k r)[0 := f k]"
    by (simp add: list_update_append)
  also have "(drop k r)[0 := f k] = f k # drop (Suc k) r"
    using k by (simp add: Cons_nth_drop_Suc[symmetric])
  finally show ?case by simp
qed

lemma setCell_fold:
  "i < length m \<Longrightarrow>
   fold (\<lambda>j m. setCell m i j (f j)) [0..<k] m = m[i := fold (\<lambda>j r. r[j := f j]) [0..<k] (m ! i)]"
  by (induction k) (simp_all add: setCell_def)

lemma fill_rows:
  assumes "k \<le> length m" and "\<forall>i<length m. length (m ! i) = n"
  shows "fold (\<lambda>i m. fold (\<lambda>j m. setCell m i j (f i j)) [0..<n] m) [0..<k] m =
         map (\<lambda>i. map (f i) [0..<n]) [0..<k] @ drop k m"
  using assms(1)
proof (induction k)
  case 0
  show ?case by simp
next
  case (Suc k)
  then have k: "k < length m" by simp
  define m' where "m' = map (\<lambda>i. map (f i) [0..<n]) [0..<k] @ drop k m"
  have len: "length m' = length m" using k by (simp add: m'_def)
  have row: "m' ! k = m ! k" using k by (simp add: m'_def nth_append)
  have rl: "length (m ! k) = n" using assms(2) k by simp
  have "fold (\<lambda>i m. fold (\<lambda>j m. setCell m i j (f i j)) [0..<n] m) [0..<Suc k] m =
        fold (\<lambda>j m. setCell m k j (f k j)) [0..<n] m'"
    using Suc by (simp add: m'_def)
  also have "\<dots> = m'[k := fold (\<lambda>j r. r[j := f k j]) [0..<n] (m' ! k)]"
    using k len by (intro setCell_fold) simp
  also have "fold (\<lambda>j r. r[j := f k j]) [0..<n] (m' ! k) = map (f k) [0..<n]"
    using fill_row[of n "m ! k" "f k"] rl row by simp
  also have "m'[k := map (f k) [0..<n]] =
      map (\<lambda>i. map (f i) [0..<n]) [0..<k] @ (drop k m)[0 := map (f k) [0..<n]]"
    by (simp add: m'_def list_update_append)
  also have "(drop k m)[0 := map (f k) [0..<n]] = map (f k) [0..<n] # drop (Suc k) m"
    using k by (simp add: Cons_nth_drop_Suc[symmetric])
  finally show ?case by simp
qed

lemma fill_empty:
  "fold (\<lambda>i m. fold (\<lambda>j m. setCell m i j (f i j)) [0..<n] m) [0..<n] (createEmptyMatrix n) =
     map (\<lambda>i. map (f i) [0..<n]) [0..<n]"
  using fill_rows[of n "createEmptyMatrix n" n f] by (simp add: createEmptyMatrix_def)

lemma matrixLoops_eq:
  "matrixLoops cs n
     (if inc2 then Some (createEmptyMatrix n) else None,
      if inc3 then Some (createEmptyMatrix n) else None, [], []) =
   (if inc2 then Some (map (\<lambda>i. map (cell2D cs i) [0..<n]) [0..<n]) else None,
    if inc3 then Some (map (\<lambda>i. map (cell3D cs i) [0..<n]) [0..<n]) else None,
    if inc2 then observations (cell2D cs) n n else [],
    if inc3 then observations (cell3D cs) n n else [])"
  by (simp add: matrixLoops_def outer_loop fill_empty)

lemma calculateDistanceMatrix_eq:
  assumes "2 \<le> length cs"
  shows "calculateDistanceMatrix cs inc2 inc3 =
     Some \<lparr>matrix2D =
             (if inc2 then Some (map (\<lambda>i. map (cell2D cs i) [0..<length cs]) [0..<length cs])
              else None),
           matrix3D =
             (if inc3 then Some (map (\<lambda>i. map (cell3D cs i) [0..<length cs]) [0..<length cs])
              else None),
           statistics2D =
             (if inc2 then calculateStatistics (observations (cell2D cs) (length cs) (length cs))
              else None),
           statistics3D =
             (if inc3 then calculateStatistics (observations (cell3D cs) (length cs) (length cs))
              else None),
           cumulative2D = (if inc2 then calculateCumulativeDistance cs False else None),
           cumulative3D = (if inc3 then calculateCumulativeDistance cs True else None)\<rparr>"
  using assms by (simp add: calculateDistanceMatrix_def Let_def matrixLoops_eq)

lemma cell2D_sym: "cell2D cs i j = cell2D cs j i"
  using calculate2DDistance_sym[of "lat (cs ! i)" "lon (cs ! i)" "lat (cs ! j)" "lon (cs ! j)"]
  by (simp add: cell2D_def)

text \<open>
  The 2D matrix is square, its diagonal holds the zero distance, and each cell off
  the diagonal holds what \<open>calculate2DDistance\<close> returned for its two points, in
  that order. Where that result is a number, the cell and its mirror image are
  equal; at the points \<open>(8, 0)\<close> and \<open>(-8, 180)\<close> both hold \<open>NaN\<close>, which is not
  equal to itself.
\<close>

lemma matrix2D_cells:
  assumes "2 \<le> length cs"
  shows "\<exists>r m. calculateDistanceMatrix cs True include3D = Some r \<and> matrix2D r = Some m \<and>
           length m = length cs \<and>
           (\<forall>i<length cs. length (m ! i) = length cs \<and> m ! i ! i = Some \<lparr>km = 0, miles = 0\<rparr>) \<and>
           (\<forall>i<length cs. \<forall>j<length cs. m ! i ! j = cell2D cs i j)"
proof -
  define n where "n = length cs"
  define m where "m = map (\<lambda>i. map (cell2D cs i) [0..<n]) [0..<n]"
  obtain r where r: "calculateDistanceMatrix cs True include3D = Some r" and mr: "matrix2D r = Some m"
    using calculateDistanceMatrix_eq[OF assms(1), of True include3D] by (simp add: m_def n_def)
  have cell: "m ! i ! j = cell2D cs i j" if "i < n" "j < n" for i j
    using that by (simp add: m_def)
  have len: "length m = n" by (simp add: m_def)
  have rows: "length (m ! i) = n \<and> m ! i ! i = Some \<lparr>km = 0, miles = 0\<rparr>" if "i < n" for i
    using that by (simp add: m_def cell2D_def)
  show ?thesis using r mr len rows cell unfolding n_def by blast
qed

lemma allValid_nth:
  "allValid cs \<Longrightarrow> i < length cs \<Longrightarrow> validateCoordinates (lat (cs ! i)) (lon (cs ! i))"
  by (simp add: allValid_def list_all_length)

lemma cell2D_Some:
  assumes "allValid cs" "i < length cs" "j < length cs"
  shows "\<exists>d. cell2D cs i j = Some d"
proof (cases "i = j")
  case True
  then show ?thesis by (simp add: cell2D_def)
next
  case False
  have "calculate2DDistance (lat (cs ! i)) (lon (cs ! i)) (lat (cs ! j)) (lon (cs ! j)) \<noteq> None"
    using assms allValid_nth by (simp add: calculate2DDistance_None_iff)
  then show ?thesis using False by (auto simp: cell2D_def)
qed

lemma cell3D_Some:
  assumes "allValid cs" "i < length cs" "j < length cs"
  shows "\<exists>d. cell3D cs i j = Some d"
proof (cases "i = j")
  case True
  then show ?thesis by (simp add: cell3D_def)
next
  case False
  have "calculate3DDistance (lat (cs ! i)) (lon (cs ! i)) (elevationOrZero (elevation (cs ! i)))
          (lat (cs ! j)) (lon (cs ! j)) (elevationOrZero (elevation (cs ! j))) \<noteq> None"
    using assms allValid_nth by (simp add: calculate3DDistance_None_iff)
  then show ?thesis using False by (auto simp: cell3D_def)
qed

lemma length_row_observations:
  assumes "\<forall>j<m. i \<noteq> j \<longrightarrow> f i j \<noteq> None"
  shows "length (concat (map (\<lambda>j. observation i j (f i j)) [0..<m])) = (if i < m then m - 1 else m)"
  using assms
proof (induction m)
  case 0
  show ?case by simp
next
  case (Suc m)
  then have ih: "length (concat (map (\<lambda>j. observation i j (f i j)) [0..<m])) =
      (if i < m then m - 1 else m)" by simp
  have last: "length (observation i m (f i m)) = (if i = m then 0 else 1)"
    using Suc.prems by (auto simp: observation_def split: option.splits)
  show ?case using ih last by (auto simp: less_Suc_eq)
qed

lemma length_observations:
  assumes "\<forall>i<n. \<forall>j<n. i \<noteq> j \<longrightarrow> f i j \<noteq> None" and "k \<le> n"
  shows "length (observations f n k) = k * (n - 1)"
  using assms(2)
proof (induction k)
  case 0
  show ?case by (simp add: observations_def)
next
  case (Suc k)
  then have k: "k < n" by simp
  have row: "length (concat (map (\<lambda>j. observation k j (f k j)) [0..<n])) = n - 1"
    using length_row_observations[of n k f] assms(1) k by simp
  have "length (observations f n (Suc k)) = length (observations f n k) + (n - 1)"
    using row by (simp add: observations_def)
  then show ?case using Suc by simp
qed

lemma count_calculateStatistics:
  "xs \<noteq> [] \<Longrightarrow> \<exists>s. calculateStatistics xs = Some s \<and> count s = length xs"
  by (simp add: calculateStatistics_def Let_def)

lemma equatorPair_valid: "2 \<le> length equatorPair \<and> allValid equatorPair"
  by (simp add: equatorPair_def allValid_def validateCoordinates_def)

text \<open>
  The observations written out, and what \<open>calculateStatistics\<close> makes of a list that
  is not empty: the rounded minimum, maximum and mean, and the length.
\<close>

lemma observations_cong:
  assumes "\<And>i j. i < k \<Longrightarrow> j < n \<Longrightarrow> f i j = g i j"
  shows "observations f n k = observations g n k"
proof -
  have inner: "map (\<lambda>j. observation i j (f i j)) [0..<n] =
               map (\<lambda>j. observation i j (g i j)) [0..<n]" if "i < k" for i
    by (rule map_cong[OF refl]) (simp add: assms that)
  have "map (\<lambda>i. concat (map (\<lambda>j. observation i j (f i j)) [0..<n])) [0..<k] =
        map (\<lambda>i. concat (map (\<lambda>j. observation i j (g i j)) [0..<n])) [0..<k]"
    by (rule map_cong[OF refl]) (simp add: inner)
  then show ?thesis unfolding observations_def by (rule arg_cong)
qed

lemma observations_explicit:
  assumes "\<And>i j. i < k \<Longrightarrow> j < n \<Longrightarrow> f i j \<noteq> None"
  shows "observations f n k =
     concat (map (\<lambda>i. concat (map (\<lambda>j. if i = j then [] else [km (the (f i j))]) [0..<n])) [0..<k])"
proof -
  have cell: "observation i j (f i j) = (if i = j then [] else [km (the (f i j))])"
    if "i < k" "j < n" for i j
    using assms[OF that] by (auto simp: observation_def)
  have inner: "map (\<lambda>j. observation i j (f i j)) [0..<n] =
               map (\<lambda>j. if i = j then [] else [km (the (f i j))]) [0..<n]" if "i < k" for i
    by (rule map_cong[OF refl]) (simp add: cell that)
  have "map (\<lambda>i. concat (map (\<lambda>j. observation i j (f i j)) [0..<n])) [0..<k] =
        map (\<lambda>i. concat (map (\<lambda>j. if i = j then [] else [km (the (f i j))]) [0..<n])) [0..<k]"
    by (rule map_cong[OF refl]) (simp add: inner)
  then show ?thesis unfolding observations_def by (rule arg_cong)
qed

lemma foldl_add_sum_list: "foldl (\<lambda>acc v. acc + v) a xs = a + sum_list (xs :: real list)"
  by (induction xs arbitrary: a) simp_all

lemma sorted_first_Min:
  assumes "sorted ys" and "ys \<noteq> []"
  shows "ys ! 0 = Min (set (ys :: real list))"
proof (rule Min_eqI[symmetric])
  show "finite (set ys)" by simp
  show "ys ! 0 \<in> set ys" using assms(2) by simp
  fix y assume "y \<in> set ys"
  then obtain i where "i < length ys" "ys ! i = y" by (auto simp: in_set_conv_nth)
  then show "ys ! 0 \<le> y" using assms(1) sorted_nth_mono[of ys 0 i] by auto
qed

lemma sorted_last_Max:
  assumes "sorted ys" and "ys \<noteq> []"
  shows "ys ! (length ys - 1) = Max (set (ys :: real list))"
proof (rule Max_eqI[symmetric])
  show "finite (set ys)" by simp
  show "ys ! (length ys - 1) \<in> set ys" using assms(2) by simp
  fix y assume "y \<in> set ys"
  then obtain i where i: "i < length ys" "ys ! i = y" by (auto simp: in_set_conv_nth)
  then have "i \<le> length ys - 1" by simp
  then show "y \<le> ys ! (length ys - 1)"
    using assms sorted_nth_mono[of ys i "length ys - 1"] i by auto
qed

lemma calculateStatistics_nonempty:
  assumes "xs \<noteq> []"
  shows "calculateStatistics xs =
     Some \<lparr>min_km = toFixed 6 (Min (set xs)), max_km = toFixed 6 (Max (set xs)),
           average = toFixed 6 (sum_list xs / real (length xs)), count = length xs\<rparr>"
proof -
  have ne: "sort xs \<noteq> []" using assms by (metis length_0_conv length_sort)
  have "sort xs ! 0 = Min (set xs)"
    using sorted_first_Min[of "sort xs"] ne by simp
  moreover have "sort xs ! (length (sort xs) - 1) = Max (set xs)"
    using sorted_last_Max[of "sort xs"] ne by simp
  ultimately show ?thesis
    using assms by (simp add: calculateStatistics_def Let_def foldl_add_sum_list)
qed

lemma observation_rounded:
  assumes "x \<in> set (observations (cell2D cs) n k)"
  shows "toFixed 6 x = x"
proof -
  from assms obtain i j where x: "x \<in> set (observation i j (cell2D cs i j))"
    by (auto simp: observations_def)
  then have ij: "i \<noteq> j" by (auto simp: observation_def split: if_splits)
  from x have "\<exists>d. cell2D cs i j = Some d \<and> x = km d"
    by (cases "cell2D cs i j") (auto simp: observation_def split: if_splits)
  then obtain d where d: "cell2D cs i j = Some d" "x = km d" by blast
  then have "calculate2DDistance (lat (cs ! i)) (lon (cs ! i)) (lat (cs ! j)) (lon (cs ! j)) = Some d"
    using ij by (simp add: cell2D_def)
  then show ?thesis using calculate2DDistance_rounded d by blast
qed

text \<open>One degree of longitude on the equator is well below 20000 km.\<close>

lemma equator_degree_km:
  assumes "calculate2DDistance (Fin 0) (Fin 0) (Fin 0) (Fin 1) = Some d"
  shows "km d \<le> 20000"
proof -
  define s where "s = sin (pi / 360)"
  have s0: "0 \<le> s" unfolding s_def by (intro sin_ge_zero) (simp_all add: field_simps)
  have "s \<le> pi / 360" unfolding s_def by (intro sin_x_le_x) simp
  also have "\<dots> \<le> 1 / 90" using pi_less_4 by simp
  finally have s1: "s \<le> 1 / 90" .
  have a: "haversine_a (toRadians 0) (toRadians 0) (toRadians 0) (toRadians 1) = s\<^sup>2"
    by (simp add: haversine_a_def toRadians_def s_def power2_eq_square)
  have "s\<^sup>2 \<le> (1 / 90)\<^sup>2" using s0 s1 by (intro power_mono) simp_all
  then have a1: "s\<^sup>2 \<le> 1 / 4" by (simp add: power2_eq_square)
  have r: "1 / 2 \<le> sqrt (1 - s\<^sup>2)"
  proof -
    have "sqrt (1 / 4) \<le> sqrt (1 - s\<^sup>2)" using a1 by (intro real_sqrt_le_mono) simp
    moreover have "sqrt (1 / 4) = 1 / 2" by (simp add: real_sqrt_divide)
    ultimately show ?thesis by simp
  qed
  then have rpos: "0 < sqrt (1 - s\<^sup>2)" by linarith
  have sq: "sqrt (s\<^sup>2) = s" using s0 by simp
  have "s / sqrt (1 - s\<^sup>2) \<le> s / (1 / 2)"
    using r s0 a1 by (intro divide_left_mono) auto
  moreover have "s / (1 / 2) \<le> 1 / 45" using s1 by simp
  ultimately have q1: "s / sqrt (1 - s\<^sup>2) \<le> 1 / 45" by (rule order_trans)
  have q0: "0 \<le> s / sqrt (1 - s\<^sup>2)" using s0 rpos by simp
  have q2: "s / sqrt (1 - s\<^sup>2) \<le> 1" using q1 by linarith
  have "arctan (s / sqrt (1 - s\<^sup>2)) \<le> arctan 1"
    unfolding arctan_le_iff by (rule q2)
  also have "\<dots> = pi / 4" by (rule arctan_one)
  also have "\<dots> \<le> 1" using pi_less_4 by simp
  finally have c: "atan2 (sqrt (s\<^sup>2)) (sqrt (1 - s\<^sup>2)) \<le> 1"
    using rpos s0 by (simp add: atan2_def)
  have "earthRadiusKm * (2 * atan2 (sqrt (s\<^sup>2)) (sqrt (1 - s\<^sup>2))) \<le> 20000"
    using c by (simp add: earthRadiusKm_def)
  then have "toFixed 6 (earthRadiusKm * (2 * atan2 (sqrt (s\<^sup>2)) (sqrt (1 - s\<^sup>2))))
      \<le> toFixed 6 20000" by (rule toFixed_mono)
  moreover have "toFixed 6 20000 = 20000" by (simp add: toFixed_def)
  moreover have "km d = toFixed 6 (earthRadiusKm * (2 * atan2 (sqrt (s\<^sup>2)) (sqrt (1 - s\<^sup>2))))"
    using assms by (auto simp: calculate2DDistance_def Let_def a validateCoordinates_def)
  ultimately show ?thesis by simp
qed

lemma statistics_pins:
  assumes ne: "obs \<noteq> []" and rounded: "\<And>x. x \<in> set obs \<Longrightarrow> toFixed 6 x = x"
  shows "\<exists>s. calculateStatistics obs = Some s \<and> count s = length obs \<and>
           min_km s = Min (set obs) \<and> max_km s = Max (set obs) \<and>
           \<bar>average s - sum_list obs / real (length obs)\<bar> \<le> 1 / 1000000"
proof -
  have fin: "finite (set obs)" "set obs \<noteq> {}" using ne by simp_all
  have mn: "toFixed 6 (Min (set obs)) = Min (set obs)"
    using rounded Min_in[OF fin] by blast
  have mx: "toFixed 6 (Max (set obs)) = Max (set obs)"
    using rounded Max_in[OF fin] by blast
  have "\<bar>toFixed 6 (sum_list obs / real (length obs)) - sum_list obs / real (length obs)\<bar>
      \<le> 1 / (2 * 10 ^ 6)" by (rule toFixed_error)
  then have av: "\<bar>toFixed 6 (sum_list obs / real (length obs)) - sum_list obs / real (length obs)\<bar>
      \<le> 1 / 1000000" by simp
  show ?thesis
    using calculateStatistics_nonempty[OF ne] mn mx av by simp
qed

text \<open>
  C3, as the source has it. The loops push the kilometers of every cell \<open>(i, j)\<close> with
  \<open>i \<noteq> j\<close>, row by row, so both triangles of the matrix are observed. For \<open>n \<ge> 2\<close>
  coordinates that pass the range predicate no cell is \<open>null\<close>, \<open>statistics2D\<close> is
  \<open>calculateStatistics\<close> of the kilometers of all off-diagonal cells of the 2D matrix,
  and its count is \<open>n * (n - 1)\<close>; likewise \<open>statistics3D\<close> and the 3D matrix. When
  all observed 2D distances are at most 20000 km, the minimum and the maximum of
  \<open>statistics2D\<close> are the smallest and the largest of them and the average is within
  0.000001 of their mean. \<open>calculateStatistics\<close> of an empty list is \<open>null\<close>.
\<close>

theorem statistics_over_both_triangles:
  assumes "2 \<le> length cs" and "allValid cs"
  shows
    "(\<exists>r m obs s. calculateDistanceMatrix cs True include3D = Some r \<and> matrix2D r = Some m \<and>
         (\<forall>i<length cs. \<forall>j<length cs. m ! i ! j \<noteq> None) \<and>
         obs = concat (map (\<lambda>i. concat (map (\<lambda>j. if i = j then [] else [km (the (m ! i ! j))])
                                            [0..<length cs])) [0..<length cs]) \<and>
         statistics2D r = calculateStatistics obs \<and> statistics2D r = Some s \<and>
         count s = length cs * (length cs - 1) \<and>
         ((\<forall>x\<in>set obs. x \<le> 20000) \<longrightarrow>
            min_km s = Min (set obs) \<and> max_km s = Max (set obs) \<and>
            \<bar>average s - sum_list obs / real (length obs)\<bar> \<le> 1 / 1000000))
     \<and> (\<exists>r m obs s. calculateDistanceMatrix cs include2D True = Some r \<and> matrix3D r = Some m \<and>
         (\<forall>i<length cs. \<forall>j<length cs. m ! i ! j \<noteq> None) \<and>
         obs = concat (map (\<lambda>i. concat (map (\<lambda>j. if i = j then [] else [km (the (m ! i ! j))])
                                            [0..<length cs])) [0..<length cs]) \<and>
         statistics3D r = calculateStatistics obs \<and> statistics3D r = Some s \<and>
         count s = length cs * (length cs - 1))
     \<and> calculateStatistics [] = None"
proof (intro conjI)
  define n where "n = length cs"
  have n2: "2 \<le> n" using assms(1) by (simp add: n_def)
  have pos: "0 < n * (n - 1)" using n2 by simp
  show "\<exists>r m obs s. calculateDistanceMatrix cs True include3D = Some r \<and> matrix2D r = Some m \<and>
         (\<forall>i<length cs. \<forall>j<length cs. m ! i ! j \<noteq> None) \<and>
         obs = concat (map (\<lambda>i. concat (map (\<lambda>j. if i = j then [] else [km (the (m ! i ! j))])
                                            [0..<length cs])) [0..<length cs]) \<and>
         statistics2D r = calculateStatistics obs \<and> statistics2D r = Some s \<and>
         count s = length cs * (length cs - 1) \<and>
         ((\<forall>x\<in>set obs. x \<le> 20000) \<longrightarrow>
            min_km s = Min (set obs) \<and> max_km s = Max (set obs) \<and>
            \<bar>average s - sum_list obs / real (length obs)\<bar> \<le> 1 / 1000000)"
  proof -
    define m where "m = map (\<lambda>i. map (cell2D cs i) [0..<n]) [0..<n]"
    define obs where "obs = observations (cell2D cs) n n"
    obtain r where r: "calculateDistanceMatrix cs True include3D = Some r"
      and mr: "matrix2D r = Some m" and sr: "statistics2D r = calculateStatistics obs"
      using calculateDistanceMatrix_eq[OF assms(1), of True include3D]
      by (simp add: m_def obs_def n_def)
    have cell: "m ! i ! j = cell2D cs i j" if "i < n" "j < n" for i j
      using that by (simp add: m_def)
    have some: "m ! i ! j \<noteq> None" if "i < n" "j < n" for i j
      using cell[OF that] cell2D_Some[OF assms(2), of i j] that by (auto simp: n_def)
    have "obs = observations (\<lambda>i j. m ! i ! j) n n"
      unfolding obs_def by (rule observations_cong) (simp add: cell)
    also have "\<dots> = concat (map (\<lambda>i. concat (map (\<lambda>j. if i = j then []
        else [km (the (m ! i ! j))]) [0..<n])) [0..<n])"
      by (rule observations_explicit) (rule some)
    finally have ex: "obs = concat (map (\<lambda>i. concat (map (\<lambda>j. if i = j then []
        else [km (the (m ! i ! j))]) [0..<n])) [0..<n])" .
    have len: "length obs = n * (n - 1)"
      unfolding obs_def using cell2D_Some[OF assms(2)]
      by (intro length_observations) (auto simp: n_def)
    then have ne: "obs \<noteq> []" using pos by auto
    have rounded: "toFixed 6 x = x" if "x \<in> set obs" for x
      using that observation_rounded unfolding obs_def by blast
    obtain s where s: "calculateStatistics obs = Some s" "count s = length obs"
      "min_km s = Min (set obs)" "max_km s = Max (set obs)"
      "\<bar>average s - sum_list obs / real (length obs)\<bar> \<le> 1 / 1000000"
      using statistics_pins[OF ne rounded] by blast
    show ?thesis
      using r mr sr s len ex some unfolding n_def by auto
  qed
  show "\<exists>r m obs s. calculateDistanceMatrix cs include2D True = Some r \<and> matrix3D r = Some m \<and>
         (\<forall>i<length cs. \<forall>j<length cs. m ! i ! j \<noteq> None) \<and>
         obs = concat (map (\<lambda>i. concat (map (\<lambda>j. if i = j then [] else [km (the (m ! i ! j))])
                                            [0..<length cs])) [0..<length cs]) \<and>
         statistics3D r = calculateStatistics obs \<and> statistics3D r = Some s \<and>
         count s = length cs * (length cs - 1)"
  proof -
    define m where "m = map (\<lambda>i. map (cell3D cs i) [0..<n]) [0..<n]"
    define obs where "obs = observations (cell3D cs) n n"
    obtain r where r: "calculateDistanceMatrix cs include2D True = Some r"
      and mr: "matrix3D r = Some m" and sr: "statistics3D r = calculateStatistics obs"
      using calculateDistanceMatrix_eq[OF assms(1), of include2D True]
      by (simp add: m_def obs_def n_def)
    have cell: "m ! i ! j = cell3D cs i j" if "i < n" "j < n" for i j
      using that by (simp add: m_def)
    have some: "m ! i ! j \<noteq> None" if "i < n" "j < n" for i j
      using cell[OF that] cell3D_Some[OF assms(2), of i j] that by (auto simp: n_def)
    have "obs = observations (\<lambda>i j. m ! i ! j) n n"
      unfolding obs_def by (rule observations_cong) (simp add: cell)
    also have "\<dots> = concat (map (\<lambda>i. concat (map (\<lambda>j. if i = j then []
        else [km (the (m ! i ! j))]) [0..<n])) [0..<n])"
      by (rule observations_explicit) (rule some)
    finally have ex: "obs = concat (map (\<lambda>i. concat (map (\<lambda>j. if i = j then []
        else [km (the (m ! i ! j))]) [0..<n])) [0..<n])" .
    have len: "length obs = n * (n - 1)"
      unfolding obs_def using cell3D_Some[OF assms(2)]
      by (intro length_observations) (auto simp: n_def)
    then have ne: "obs \<noteq> []" using pos by auto
    obtain s where s: "calculateStatistics obs = Some s" "count s = length obs"
      using count_calculateStatistics[OF ne] by blast
    show ?thesis
      using r mr sr s len ex some unfolding n_def by auto
  qed
  show "calculateStatistics [] = None" by (simp add: calculateStatistics_def)
qed

lemma upt_two: "[0..<2] = [0, Suc 0]" by (simp add: numeral_2_eq_2)

lemma equatorPair_cells:
  "\<exists>d. cell2D equatorPair 0 1 = Some d \<and> cell2D equatorPair 1 0 = Some d \<and> km d \<le> 20000"
proof -
  have v: "validateCoordinates (Fin 0) (Fin 0)" "validateCoordinates (Fin 0) (Fin 1)"
    by (simp_all add: validateCoordinates_def)
  then obtain d where d: "calculate2DDistance (Fin 0) (Fin 0) (Fin 0) (Fin 1) = Some d"
    using calculate2DDistance_None_iff[of "Fin 0" "Fin 0" "Fin 0" "Fin 1"] by auto
  then have "calculate2DDistance (Fin 0) (Fin 1) (Fin 0) (Fin 0) = Some d"
    using calculate2DDistance_sym[of "Fin 0" "Fin 1" "Fin 0" "Fin 0"] by simp
  then show ?thesis
    using d equator_degree_km[OF d] by (simp add: cell2D_def equatorPair_def)
qed

theorem statistics_over_both_triangles_witness:
  "2 \<le> length equatorPair \<and> allValid equatorPair \<and>
   (\<exists>r m s. calculateDistanceMatrix equatorPair True True = Some r \<and> matrix2D r = Some m \<and>
      statistics2D r = Some s \<and> count s = 2 \<and>
      min_km s = Min {km (the (m ! 0 ! 1)), km (the (m ! 1 ! 0))} \<and>
      max_km s = Max {km (the (m ! 0 ! 1)), km (the (m ! 1 ! 0))})"
proof -
  have l: "length equatorPair = 2" by (simp add: equatorPair_def)
  have v: "2 \<le> length equatorPair" "allValid equatorPair" using equatorPair_valid by simp_all
  have "\<exists>r m obs s. calculateDistanceMatrix equatorPair True True = Some r \<and> matrix2D r = Some m \<and>
         (\<forall>i<length equatorPair. \<forall>j<length equatorPair. m ! i ! j \<noteq> None) \<and>
         obs = concat (map (\<lambda>i. concat (map (\<lambda>j. if i = j then [] else [km (the (m ! i ! j))])
                 [0..<length equatorPair])) [0..<length equatorPair]) \<and>
         statistics2D r = calculateStatistics obs \<and> statistics2D r = Some s \<and>
         count s = length equatorPair * (length equatorPair - 1) \<and>
         ((\<forall>x\<in>set obs. x \<le> 20000) \<longrightarrow>
            min_km s = Min (set obs) \<and> max_km s = Max (set obs) \<and>
            \<bar>average s - sum_list obs / real (length obs)\<bar> \<le> 1 / 1000000)"
    using statistics_over_both_triangles[OF v, of True True] by (rule conjunct1)
  then obtain r m obs s where r: "calculateDistanceMatrix equatorPair True True = Some r"
    and m: "matrix2D r = Some m"
    and obs: "obs = concat (map (\<lambda>i. concat (map (\<lambda>j. if i = j then []
        else [km (the (m ! i ! j))]) [0..<length equatorPair])) [0..<length equatorPair])"
    and s: "statistics2D r = Some s" "count s = length equatorPair * (length equatorPair - 1)"
    and pins: "(\<forall>x\<in>set obs. x \<le> 20000) \<longrightarrow>
            min_km s = Min (set obs) \<and> max_km s = Max (set obs) \<and>
            \<bar>average s - sum_list obs / real (length obs)\<bar> \<le> 1 / 1000000"
    by (elim exE conjE)
  have o: "obs = [km (the (m ! 0 ! 1)), km (the (m ! 1 ! 0))]"
    unfolding obs l upt_two by simp
  have "Some m = Some (map (\<lambda>i. map (cell2D equatorPair i) [0..<2]) [0..<2])"
    using calculateDistanceMatrix_eq[OF v(1), of True True] r m unfolding l by simp
  then have "m = [[cell2D equatorPair 0 0, cell2D equatorPair 0 (Suc 0)],
                  [cell2D equatorPair (Suc 0) 0, cell2D equatorPair (Suc 0) (Suc 0)]]"
    unfolding upt_two by simp
  then have c: "m ! 0 ! 1 = cell2D equatorPair 0 1" "m ! 1 ! 0 = cell2D equatorPair 1 0"
    by simp_all
  obtain d where d: "cell2D equatorPair 0 1 = Some d" "cell2D equatorPair 1 0 = Some d"
    "km d \<le> 20000"
    using equatorPair_cells by blast
  have "\<forall>x\<in>set obs. x \<le> 20000" unfolding o c d using d(3) by simp
  then have p: "min_km s = Min (set obs)" "max_km s = Max (set obs)" using pins by blast+
  have cnt: "count s = 2" using s(2) unfolding l by simp
  have so: "set obs = {km (the (m ! 0 ! 1)), km (the (m ! 1 ! 0))}" unfolding o by simp
  show ?thesis
    using v r m s(1) cnt p unfolding so by blast
qed

lemma equatorPair_statistics2D:
  "\<exists>r s. calculateDistanceMatrix equatorPair True True = Some r \<and> statistics2D r = Some s \<and> count s = 2"
proof -
  have l: "length equatorPair = 2" by (simp add: equatorPair_def)
  have v: "allValid equatorPair" using equatorPair_valid by simp
  have "length (observations (cell2D equatorPair) 2 2) = 2 * (2 - 1)"
    using cell2D_Some[OF v] by (intro length_observations) (auto simp: l)
  then have ln: "length (observations (cell2D equatorPair) 2 2) = 2" by simp
  then have "observations (cell2D equatorPair) 2 2 \<noteq> []" by auto
  then obtain s where "calculateStatistics (observations (cell2D equatorPair) 2 2) = Some s"
    "count s = 2"
    using count_calculateStatistics ln by metis
  then show ?thesis
    using calculateDistanceMatrix_eq[of equatorPair True True] l by simp
qed

text \<open>For two points the count is 2, not the one pair that a single triangle holds.\<close>

theorem statistics_count_one_triangle_counterexample:
  "calculateDistanceMatrix equatorPair True True \<noteq> None \<and>
   map_option count (statistics2D (the (calculateDistanceMatrix equatorPair True True))) = Some 2
   \<and> length equatorPair * (length equatorPair - 1) div 2 = 1"
  using equatorPair_statistics2D by (auto simp: equatorPair_def)

section \<open>The loop of the cumulative distance\<close>

lemma fst_cumulativeStep:
  "segmentDistance cs inc i = Some d \<Longrightarrow> fst (cumulativeStep cs inc i st) = fst st + km d"
  by (cases st) simp

lemma cumulative_fold_km:
  assumes "\<forall>i<k. segmentDistance cs inc i \<noteq> None"
  shows "fst (fold (cumulativeStep cs inc) [0..<k] st) =
           fst st + (\<Sum>i<k. km (the (segmentDistance cs inc i)))"
  using assms
proof (induction k)
  case 0
  show ?case by simp
next
  case (Suc k)
  then obtain d where d: "segmentDistance cs inc k = Some d" by auto
  have "fst (fold (cumulativeStep cs inc) [0..<Suc k] st) =
        fst (fold (cumulativeStep cs inc) [0..<k] st) + km d"
    using fst_cumulativeStep[OF d] by simp
  then show ?case using Suc d by simp
qed

lemma segmentDistance_2D:
  "segmentDistance cs False i =
     calculate2DDistance (lat (cs ! i)) (lon (cs ! i)) (lat (cs ! (i + 1))) (lon (cs ! (i + 1)))"
  by (simp add: segmentDistance_def Let_def)

lemma calculateCumulativeDistance_totalKm:
  assumes "2 \<le> length cs"
  shows "\<exists>c. calculateCumulativeDistance cs inc = Some c \<and>
           totalKm c = toFixed 6 (fst (fold (cumulativeStep cs inc) [0..<length cs - 1] (0, 0, [])))"
  using assms by (auto simp: calculateCumulativeDistance_def split: prod.splits)

text \<open>
  C8. For at least two coordinates that all pass the range predicate, every
  consecutive pair has a 2D distance, and \<open>totalKm\<close> of the cumulative 2D distance
  is the sum of the kilometers of \<open>calculate2DDistance(coordinates[i],
  coordinates[i+1])\<close> for \<open>i\<close> from \<open>0\<close> to \<open>n - 2\<close>, rounded to six decimals. On
  fewer than two coordinates \<open>calculateCumulativeDistance\<close> returns \<open>null\<close>.
\<close>

theorem cumulative_is_consecutive_sum:
  "(2 \<le> length cs \<and> allValid cs \<longrightarrow>
      (\<forall>i<length cs - 1.
         calculate2DDistance (lat (cs ! i)) (lon (cs ! i)) (lat (cs ! (i + 1))) (lon (cs ! (i + 1)))
           \<noteq> None) \<and>
      (\<exists>c. calculateCumulativeDistance cs False = Some c \<and>
         totalKm c = toFixed 6 (\<Sum>i<length cs - 1.
           km (the (calculate2DDistance (lat (cs ! i)) (lon (cs ! i))
                      (lat (cs ! (i + 1))) (lon (cs ! (i + 1))))))))
   \<and> (length cs < 2 \<longrightarrow> calculateCumulativeDistance cs include3D = None)"
proof (intro conjI impI)
  assume h: "2 \<le> length cs \<and> allValid cs"
  show seg: "\<forall>i<length cs - 1.
         calculate2DDistance (lat (cs ! i)) (lon (cs ! i)) (lat (cs ! (i + 1))) (lon (cs ! (i + 1)))
           \<noteq> None"
    using h allValid_nth[of cs] by (simp add: calculate2DDistance_None_iff)
  then have "\<forall>i<length cs - 1. segmentDistance cs False i \<noteq> None"
    by (simp add: segmentDistance_2D)
  then have "fst (fold (cumulativeStep cs False) [0..<length cs - 1] (0, 0, [])) =
      (\<Sum>i<length cs - 1. km (the (segmentDistance cs False i)))"
    using cumulative_fold_km[of "length cs - 1" cs False "(0, 0, [])"] by simp
  then show "\<exists>c. calculateCumulativeDistance cs False = Some c \<and>
         totalKm c = toFixed 6 (\<Sum>i<length cs - 1.
           km (the (calculate2DDistance (lat (cs ! i)) (lon (cs ! i))
                      (lat (cs ! (i + 1))) (lon (cs ! (i + 1))))))"
    using calculateCumulativeDistance_totalKm[of cs False] h by (simp add: segmentDistance_2D)
next
  assume "length cs < 2"
  then show "calculateCumulativeDistance cs include3D = None"
    by (simp add: calculateCumulativeDistance_def)
qed

theorem cumulative_is_consecutive_sum_witness:
  "2 \<le> length equatorPair \<and> allValid equatorPair \<and>
   calculate2DDistance (Fin 0) (Fin 0) (Fin 0) (Fin 1) \<noteq> None \<and>
   (\<exists>c. calculateCumulativeDistance equatorPair False = Some c \<and>
      totalKm c = toFixed 6 (km (the (calculate2DDistance (Fin 0) (Fin 0) (Fin 0) (Fin 1))))) \<and>
   calculateCumulativeDistance [] True = None"
proof -
  have l: "length equatorPair - 1 = 1" by (simp add: equatorPair_def)
  have e: "equatorPair ! 0 = \<lparr>lat = Fin 0, lon = Fin 0, elevation = None\<rparr>"
    "equatorPair ! Suc 0 = \<lparr>lat = Fin 0, lon = Fin 1, elevation = Some (Fin 100)\<rparr>"
    by (simp_all add: equatorPair_def)
  show ?thesis
    using cumulative_is_consecutive_sum[of equatorPair False]
      cumulative_is_consecutive_sum[of "[]" True] equatorPair_valid
    unfolding l by (simp add: e)
qed

end
